theory Spec2Isabelle
  imports
    Complex_Main
    "HOL-Library.Sublist"
    "HOL-Library.Char_ord"
    "HOL-Library.List_Lexorder"
    "HOL-Library.Monad_Syntax"
begin

section \<open>Go strings\<close>

text \<open>
  A Go \<open>string\<close> is a sequence of bytes; it is modelled as a \<open>char list\<close>, one
  \<open>char\<close> per byte. \<open>len\<close> is \<open>length\<close>, \<open>s[n:]\<close> is \<open>drop n s\<close>.
\<close>

definition nl :: char where
  "nl = CHR 0x0A"

definition HasPrefix :: "string \<Rightarrow> string \<Rightarrow> bool" where
  \<comment> \<open>\<open>strings.HasPrefix(s, prefix)\<close>\<close>
  "HasPrefix s pre = prefix pre s"

definition TrimRight :: "string \<Rightarrow> string \<Rightarrow> string" where
  \<comment> \<open>\<open>strings.TrimRight(s, cutset)\<close> for a cutset of ASCII bytes: the trailing bytes
      that belong to the cutset are removed.\<close>
  "TrimRight s cutset = rev (dropWhile (\<lambda>c. c \<in> set cutset) (rev s))"

section \<open>Completion candidates: \<open>completeFromSlice\<close>\<close>

fun complete_loop :: "string \<Rightarrow> string list \<Rightarrow> string list \<Rightarrow> string list" where
  \<comment> \<open>the \<open>for _, completion := range completions\<close> loop, with \<open>completed\<close> as accumulator\<close>
  "complete_loop str [] completed = completed"
| "complete_loop str (completion # rest) completed =
     complete_loop str rest
       (if HasPrefix completion str \<and> str \<noteq> completion
        then completed @ [completion] else completed)"

definition completeFromSlice :: "string \<Rightarrow> string list \<Rightarrow> string list" where
  "completeFromSlice str completions =
     (if str = [] \<or> TrimRight str [CHR '' '', nl] \<noteq> str then []
      else complete_loop str completions [])"

section \<open>The base editor: \<open>ViewEditor.Edit\<close>\<close>

text \<open>
  Keys, runes and modifiers of the terminal toolkit. Only the keys the editors test are
  named; \<open>Key0\<close> is the key value \<open>0\<close> that accompanies a plain character.
\<close>

datatype Key = Key0 | KeyEnter | KeyArrowDown | KeyOther nat

datatype Modifier = ModNone | ModAlt

type_synonym rune = nat

definition rune_Z :: rune where
  "rune_Z = 0x5A"

definition rune_lbracket :: rune where
  "rune_lbracket = 0x5B"

text \<open>
  What an editor does to its collaborators is recorded as a list of effects, in the order
  of the calls: \<open>PrevView\<close> is \<open>e.app.PrevView(e.g, nil)\<close>, \<open>OrigEdit\<close> a call of the
  wrapped toolkit editor \<open>e.origEditor.Edit\<close>, \<open>EditDelete\<close> and \<open>EditWrite\<close> the view's
  methods of these names, \<open>CloseAutocomplete\<close> and \<open>ShowAutocomplete\<close> the two functions
  that delete and create the suggestion region.
\<close>

datatype effect =
    PrevView
  | OrigEdit Key rune Modifier
  | EditDelete bool
  | EditWrite rune
  | CloseAutocomplete
  | ShowAutocomplete "string list" int int int int

definition ViewEditor_Edit ::
    "bool \<Rightarrow> bool \<Rightarrow> Key \<Rightarrow> rune \<Rightarrow> Modifier \<Rightarrow> effect list \<times> bool" where
  \<comment> \<open>\<open>backTabEscape\<close> is the editor's flag; \<open>line_err\<close> says whether \<open>v.Line(cY)\<close> at the
      cursor fails. The result is the list of calls made and the new flag.\<close>
  "ViewEditor_Edit backTabEscape line_err key ch modifier =
     (if backTabEscape \<and> ch = rune_Z then ([PrevView], False)
      else
        let replayed = (if backTabEscape then [OrigEdit Key0 rune_lbracket ModAlt] else []) in
        if ch = rune_lbracket \<and> modifier = ModAlt then (replayed, True)
        else if key = KeyArrowDown \<and> modifier = ModNone \<and> line_err then (replayed, backTabEscape)
        else (replayed @ [OrigEdit key ch modifier], backTabEscape))"


section \<open>Runes of a string\<close>

text \<open>
  \<open>for range s\<close> walks the runes of a string: each step decodes one UTF-8 sequence, and
  a byte that starts no valid sequence counts as the rune \<open>U+FFFD\<close> of width one.
\<close>

definition RuneError :: rune where
  "RuneError = 0xFFFD"

definition cont_byte :: "char \<Rightarrow> bool" where
  "cont_byte c \<longleftrightarrow> 0x80 \<le> (of_char c :: nat) \<and> (of_char c :: nat) \<le> 0xBF"

definition second_byte :: "nat \<Rightarrow> char \<Rightarrow> bool" where
  \<comment> \<open>the range of the second byte depends on the first: no overlong forms, no
      surrogates, nothing beyond \<open>U+10FFFF\<close>\<close>
  "second_byte b0 c \<longleftrightarrow>
     (if b0 = 0xE0 then 0xA0 else if b0 = 0xF0 then 0x90 else 0x80) \<le> (of_char c :: nat) \<and>
     (of_char c :: nat) \<le> (if b0 = 0xED then 0x9F else if b0 = 0xF4 then 0x8F else 0xBF)"

definition low6 :: "char \<Rightarrow> nat" where
  "low6 c = of_char c - 0x80"

fun DecodeRune :: "string \<Rightarrow> rune \<times> nat" where
  \<comment> \<open>the first rune of a string and its width in bytes\<close>
  "DecodeRune [] = (RuneError, 0)"
| "DecodeRune (c0 # cs) =
     (let b0 = (of_char c0 :: nat) in
      if b0 < 0x80 then (b0, 1)
      else if 0xC2 \<le> b0 \<and> b0 \<le> 0xDF then
        (case cs of
           c1 # _ \<Rightarrow>
             if cont_byte c1 then ((b0 - 0xC0) * 0x40 + low6 c1, 2) else (RuneError, 1)
         | _ \<Rightarrow> (RuneError, 1))
      else if 0xE0 \<le> b0 \<and> b0 \<le> 0xEF then
        (case cs of
           c1 # c2 # _ \<Rightarrow>
             if second_byte b0 c1 \<and> cont_byte c2
             then ((b0 - 0xE0) * 0x1000 + low6 c1 * 0x40 + low6 c2, 3) else (RuneError, 1)
         | _ \<Rightarrow> (RuneError, 1))
      else if 0xF0 \<le> b0 \<and> b0 \<le> 0xF4 then
        (case cs of
           c1 # c2 # c3 # _ \<Rightarrow>
             if second_byte b0 c1 \<and> cont_byte c2 \<and> cont_byte c3
             then ((b0 - 0xF0) * 0x40000 + low6 c1 * 0x1000 + low6 c2 * 0x40 + low6 c3, 4)
             else (RuneError, 1)
         | _ \<Rightarrow> (RuneError, 1))
      else (RuneError, 1))"

fun runes :: "string \<Rightarrow> rune list" where
  "runes [] = []"
| "runes (c # cs) =
     fst (DecodeRune (c # cs)) # runes (drop (snd (DecodeRune (c # cs)) - 1) cs)"

section \<open>The autocomplete layer: \<open>AutocompleteEditor.Edit\<close>\<close>

definition is_symbol_char :: "char \<Rightarrow> bool" where
  \<comment> \<open>the class \<open>[a-zA-Z0-9-]\<close>\<close>
  "is_symbol_char c \<longleftrightarrow>
     (CHR ''a'' \<le> c \<and> c \<le> CHR ''z'') \<or> (CHR ''A'' \<le> c \<and> c \<le> CHR ''Z'') \<or>
     (CHR ''0'' \<le> c \<and> c \<le> CHR ''9'') \<or> c = CHR ''-''"

definition getLastSymbol :: "string \<Rightarrow> string" where
  \<comment> \<open>\<open>symbolPattern.FindString(str)\<close> for the pattern \<open>[a-zA-Z0-9-]+$\<close>: the longest run
      of symbol characters that ends the string, empty when there is none\<close>
  "getLastSymbol str = rev (takeWhile is_symbol_char (rev str))"

text \<open>
  The state of the autocomplete editor together with the flag of the base editor it
  wraps.
\<close>

record AutocompleteEditor =
  backTabEscape :: bool
  currentCompletions :: "string list"
  isAutocompleting :: bool

text \<open>
  What one call of \<open>Edit\<close> reads from the view and the user interface: whether
  \<open>v.Line\<close> fails for the base editor (at its first and at its second call), the cursor
  column and the line under the cursor with its error (\<open>v.Cursor\<close>, \<open>v.Line\<close>), and for
  placing the suggestions the cursor read again, the width of the view and its position.
\<close>

record observation =
  o_down1 :: bool
  o_cx :: int
  o_line :: string
  o_err :: bool
  o_down2 :: bool
  o_cx2 :: int
  o_cy2 :: int
  o_sx :: int
  o_ox :: int
  o_oy :: int

definition AutocompleteEditor_Edit ::
    "(string \<Rightarrow> string list) \<Rightarrow> AutocompleteEditor \<Rightarrow> Key \<Rightarrow> rune \<Rightarrow> Modifier \<Rightarrow> observation
       \<Rightarrow> (effect list \<times> AutocompleteEditor) option" where
  \<comment> \<open>\<open>None\<close> is a panic: a slice or an index out of range\<close>
  "AutocompleteEditor_Edit completions e key ch modifier ob =
     (let (fx1, bt1) =
            (if key \<noteq> KeyEnter
             then ViewEditor_Edit (backTabEscape e) (o_down1 ob) key ch modifier
             else ([], backTabEscape e));
          ln = (if o_err ob then [] else o_line ob)
      in
      if o_cx ob < 0 \<or> int (length ln) < o_cx ob then None
      else
        let trimmedLine = take (nat (o_cx ob)) ln in
        if o_err ob then
          (let (fx2, bt2) = ViewEditor_Edit bt1 (o_down2 ob) key ch modifier
           in Some (fx1 @ fx2, e\<lparr>backTabEscape := bt2\<rparr>))
        else
          let lastSymbol = getLastSymbol trimmedLine in
          if key = KeyEnter \<and> isAutocompleting e then
            (case currentCompletions e of
               [] \<Rightarrow> None
             | currentCompletion # _ \<Rightarrow>
                 Some (fx1 @
                       (if length (currentCompletions e) = 1 then []
                        else map (\<lambda>_. EditDelete True) (runes lastSymbol)) @
                       map EditWrite (runes currentCompletion) @ [CloseAutocomplete],
                       e\<lparr>backTabEscape := bt1, isAutocompleting := False\<rparr>))
          else
            let (fx2, bt2) =
                  (if key = KeyEnter then ViewEditor_Edit bt1 (o_down2 ob) key ch modifier
                   else ([], bt1));
                comps = completions lastSymbol;
                maxWidth = o_sx ob - o_cx2 ob;
                x = o_ox ob + o_cx2 ob;
                y = o_oy ob + o_cy2 ob
            in
            (case comps of
               [] \<Rightarrow>
                 Some (fx1 @ fx2 @ [CloseAutocomplete],
                       e\<lparr>backTabEscape := bt2, currentCompletions := [],
                         isAutocompleting := False\<rparr>)
             | [c] \<Rightarrow>
                 if length c < length lastSymbol then None
                 else
                   let comps' = [drop (length lastSymbol) c] in
                   Some (fx1 @ fx2 @
                         [CloseAutocomplete, ShowAutocomplete comps' x y maxWidth 10],
                         e\<lparr>backTabEscape := bt2, currentCompletions := comps',
                           isAutocompleting := True\<rparr>)
             | _ \<Rightarrow>
                 Some (fx1 @ fx2 @
                       [CloseAutocomplete,
                        ShowAutocomplete comps (x - int (length lastSymbol)) (y + 1)
                          (maxWidth + int (length lastSymbol)) 10],
                       e\<lparr>backTabEscape := bt2, currentCompletions := comps,
                         isAutocompleting := True\<rparr>)))"

section \<open>Positions: \<open>getCoordinate\<close>\<close>

text \<open>
  A \<open>float32\<close> is a finite value, an infinity with its sign, or not a number. The finite
  value \<open>Finite m e\<close> is \<open>m * 2 ^ e\<close>; the values of the type are those with
  \<open>\<bar>m\<bar> < 2 ^ 24\<close>, \<open>- 149 \<le> e\<close> and a magnitude below \<open>2 ^ 128\<close>. The sign of a zero
  is not kept: the conversion to an integer does not see it.
\<close>

datatype float32 = Finite int int | Infinity bool | NaN

function bitlength :: "int \<Rightarrow> int" where
  \<comment> \<open>the number of binary digits of a positive integer\<close>
  "bitlength n = (if n \<le> 0 then 0 else 1 + bitlength (n div 2))"
  by pat_completeness auto
termination
  by (relation "measure nat") auto

declare bitlength.simps [simp del]

definition round32 :: "int \<Rightarrow> int \<Rightarrow> float32" where
  \<comment> \<open>the \<open>float32\<close> nearest to \<open>m * 2 ^ e\<close>, a tie going to the even mantissa: \<open>k\<close> low
      bits are dropped so that 24 bits are left and the exponent is not below \<open>- 149\<close>; a
      rounded magnitude of \<open>2 ^ 128\<close> or more is an infinity\<close>
  "round32 m e =
     (let k = nat (max 0 (max (bitlength \<bar>m\<bar> - 24) (- 149 - e)));
          q = \<bar>m\<bar> div 2 ^ k;
          r = \<bar>m\<bar> mod 2 ^ k;
          q' = (if k = 0 then q
                else if 2 ^ (k - 1) < r \<or> (r = 2 ^ (k - 1) \<and> odd q) then q + 1 else q)
      in if 128 < bitlength q' + (e + int k) then Infinity (m < 0)
         else Finite (sgn m * q') (e + int k))"

definition float32_of_int :: "int \<Rightarrow> float32" where
  \<comment> \<open>the conversion \<open>float32(max)\<close>\<close>
  "float32_of_int i = round32 i 0"

fun f32_mul :: "float32 \<Rightarrow> float32 \<Rightarrow> float32" where
  \<comment> \<open>the product of two \<open>float32\<close> values: the exact product, rounded once\<close>
  "f32_mul (Finite m1 e1) (Finite m2 e2) = round32 (m1 * m2) (e1 + e2)"
| "f32_mul (Finite m e) (Infinity s) = (if m = 0 then NaN else Infinity (s \<noteq> (m < 0)))"
| "f32_mul (Infinity s) (Finite m e) = (if m = 0 then NaN else Infinity (s \<noteq> (m < 0)))"
| "f32_mul (Infinity s1) (Infinity s2) = Infinity (s1 \<noteq> s2)"
| "f32_mul NaN y = NaN"
| "f32_mul x NaN = NaN"

definition discard_fraction :: "int \<Rightarrow> int \<Rightarrow> int" where
  \<comment> \<open>\<open>m * 2 ^ e\<close> without its fraction: truncation towards zero\<close>
  "discard_fraction m e = (if 0 \<le> e then m * 2 ^ nat e else sgn m * (\<bar>m\<bar> div 2 ^ nat (- e)))"

definition int_of_float32 :: "float32 \<Rightarrow> int option" where
  \<comment> \<open>the conversion \<open>int(x)\<close> to a 64-bit \<open>int\<close>; \<open>None\<close> where the value does not fit and
      the language leaves the result to the implementation\<close>
  "int_of_float32 x =
     (case x of
        Finite m e \<Rightarrow>
          (let t = discard_fraction m e in if - (2 ^ 63) \<le> t \<and> t < 2 ^ 63 then Some t else None)
      | _ \<Rightarrow> None)"

definition int64 :: "int \<Rightarrow> int" where
  \<comment> \<open>the 64-bit \<open>int\<close> an integer wraps to\<close>
  "int64 x = (x + 2 ^ 63) mod 2 ^ 64 - 2 ^ 63"

record position =
  pct :: float32
  abs' :: int

definition getCoordinate :: "position \<Rightarrow> int \<Rightarrow> int option" where
  "getCoordinate p mx =
     (case int_of_float32 (f32_mul (pct p) (float32_of_int mx)) of
        None \<Rightarrow> None
      | Some i \<Rightarrow> Some (int64 (i + abs' p)))"

definition valof :: "int \<Rightarrow> int \<Rightarrow> real" where
  \<comment> \<open>the real number \<open>m * 2 ^ e\<close>\<close>
  "valof m e = (if 0 \<le> e then of_int m * 2 ^ nat e else of_int m / 2 ^ nat (- e))"


section \<open>More string functions of the Go library\<close>

definition Replace1 :: "string \<Rightarrow> char \<Rightarrow> char \<Rightarrow> string" where
  \<comment> \<open>\<open>strings.Replace(s, old, new, -1)\<close> for \<open>old\<close> and \<open>new\<close> of one byte each\<close>
  "Replace1 s old new = map (\<lambda>c. if c = old then new else c) s"

fun Split1 :: "string \<Rightarrow> char \<Rightarrow> string list" where
  \<comment> \<open>\<open>strings.Split(s, sep)\<close> for a separator of one byte\<close>
  "Split1 [] sep = [[]]"
| "Split1 (c # cs) sep =
     (if c = sep then [] # Split1 cs sep
      else (case Split1 cs sep of [] \<Rightarrow> [[c]] | w # ws \<Rightarrow> (c # w) # ws))"

fun Cut :: "string \<Rightarrow> string \<Rightarrow> (string \<times> string) option" where
  \<comment> \<open>the text before and after the first occurrence of a non-empty separator\<close>
  "Cut [] sep = None"
| "Cut (c # cs) sep =
     (if prefix sep (c # cs) then Some ([], drop (length sep) (c # cs))
      else (case Cut cs sep of None \<Rightarrow> None | Some (a, b) \<Rightarrow> Some (c # a, b)))"

definition SplitN2 :: "string \<Rightarrow> string \<Rightarrow> string list" where
  \<comment> \<open>\<open>strings.SplitN(s, sep, 2)\<close> for a non-empty separator\<close>
  "SplitN2 s sep = (case Cut s sep of None \<Rightarrow> [s] | Some (a, b) \<Rightarrow> [a, b])"

fun Join :: "string list \<Rightarrow> string \<Rightarrow> string" where
  \<comment> \<open>\<open>strings.Join(elems, sep)\<close>\<close>
  "Join [] sep = []"
| "Join [x] sep = x"
| "Join (x # y # ys) sep = x @ sep @ Join (y # ys) sep"

fun digits :: "nat \<Rightarrow> string" where
  "digits n =
     (if n < 10 then [''0123456789'' ! n]
      else digits (n div 10) @ [''0123456789'' ! (n mod 10)])"

declare digits.simps [simp del]

definition itoa :: "int \<Rightarrow> string" where
  \<comment> \<open>an integer printed with \<open>%d\<close> or \<open>%v\<close>\<close>
  "itoa i = (if i < 0 then CHR ''-'' # digits (nat (- i)) else digits (nat i))"

definition ESC :: char where
  "ESC = CHR 0x1B"

section \<open>Names of the regions\<close>

definition URL_VIEW :: string where "URL_VIEW = ''url''"
definition URL_PARAMS_VIEW :: string where "URL_PARAMS_VIEW = ''get''"
definition REQUEST_METHOD_VIEW :: string where "REQUEST_METHOD_VIEW = ''method''"
definition REQUEST_DATA_VIEW :: string where "REQUEST_DATA_VIEW = ''data''"
definition REQUEST_HEADERS_VIEW :: string where "REQUEST_HEADERS_VIEW = ''headers''"
definition SEARCH_VIEW :: string where "SEARCH_VIEW = ''search''"
definition RESPONSE_HEADERS_VIEW :: string where "RESPONSE_HEADERS_VIEW = ''response-headers''"
definition RESPONSE_BODY_VIEW :: string where "RESPONSE_BODY_VIEW = ''response-body''"
definition POPUP_VIEW :: string where "POPUP_VIEW = ''popup_view''"
definition HISTORY_VIEW :: string where "HISTORY_VIEW = ''history''"

definition VIEWS :: "string list" where
  "VIEWS = [URL_VIEW, URL_PARAMS_VIEW, REQUEST_METHOD_VIEW, REQUEST_DATA_VIEW,
            REQUEST_HEADERS_VIEW, SEARCH_VIEW, RESPONSE_HEADERS_VIEW, RESPONSE_BODY_VIEW]"

section \<open>Data model\<close>

text \<open>
  A region of the terminal toolkit, as far as the program reads and writes it: the text
  written to it since it was last cleared, its cursor, its title and its inner size.
  Geometry on the screen, colours, frames and the scroll origin are left out.
\<close>

record View =
  written :: string
  cursor :: "int \<times> int"
  title :: string
  vsize :: "int \<times> int"

text \<open>
  The formatter capability of package \<open>formatter\<close>, which the program only calls:
  \<open>Format\<close> gives the text it writes and its error, \<open>Search\<close> an error or the results.
\<close>

record ResponseFormatter =
  fTitle :: string
  fSearchable :: bool
  fFormat :: "string \<Rightarrow> string \<times> string option"
  fSearch :: "string \<Rightarrow> string \<Rightarrow> string + string list"

record Request =
  Url :: string
  Method :: string
  GetParams :: string
  Data :: string
  Headers :: string
  ResponseHeaders :: string
  RawResponseBody :: "string option"
  ContentType :: string
  Duration :: int
  Formatter :: "ResponseFormatter option"

definition Request0 :: Request where
  \<comment> \<open>\<open>&Request{}\<close>: every field has its zero value\<close>
  "Request0 = \<lparr>Url = [], Method = [], GetParams = [], Data = [], Headers = [],
     ResponseHeaders = [], RawResponseBody = None, ContentType = [], Duration = 0,
     Formatter = None\<rparr>"

text \<open>
  \<open>http.Header\<close> maps a canonical header name to its values; it is kept as an
  association list with one entry per name.
\<close>

type_synonym http_Header = "(string \<times> string list) list"

record HttpRequest =
  reqMethod :: string
  reqURL :: string
  reqBody :: "string option"
  reqHeader :: http_Header
  reqHost :: "string option"

text \<open>
  What the program reads of an HTTP response: the status, the headers and trailers, the
  outcome of \<open>io.ReadAll\<close> on the body as it is, and the outcome of \<open>gzip.NewReader\<close>
  followed by \<open>io.ReadAll\<close> (\<open>Inl\<close> when \<open>gzip.NewReader\<close> fails); \<open>None\<close> is a failed read.
\<close>

record Response =
  StatusCode :: int
  RespHeader :: http_Header
  Trailer :: http_Header
  ReadAll :: "string option"
  Gunzip :: "string + string option"

text \<open>What assembling the multipart payload of the body text comes to.\<close>

datatype multipart_outcome =
    MPQueryError
  | MPOpenError string
  | MPWriteError
  | MPBody string

text \<open>
  The collaborators outside the repository's sources: the Go library, the terminal
  toolkit, package \<open>formatter\<close>, the configuration, the file system and the network.
  \<open>'u\<close> is a parsed URL, \<open>'q\<close> a parsed query.
\<close>

record ('u, 'q) env =
  TrimSpace :: "string \<Rightarrow> string"
  Buffer :: "string \<Rightarrow> string"
  url_Parse :: "string \<Rightarrow> string + 'u"
  url_ParseQuery :: "string \<Rightarrow> string + 'q"
  query_Encode :: "'u \<Rightarrow> 'q \<Rightarrow> string"
  url_String :: "'u \<Rightarrow> string \<Rightarrow> string"
  CanonicalMIMEHeaderKey :: "string \<Rightarrow> string"
  multipart :: "string \<Rightarrow> multipart_outcome"
  http_NewRequest :: "string \<Rightarrow> string \<Rightarrow> string option \<Rightarrow> string option"
  CLIENT_Do :: "HttpRequest \<Rightarrow> (string + Response) \<times> int"
  formatter_New :: "string \<Rightarrow> ResponseFormatter"
  http_StatusText :: "int \<Rightarrow> string"
  DEFAULT_FORMATTER :: ResponseFormatter
  ContextSpecificSearch :: bool
  os_ReadFile :: "string \<Rightarrow> string + string"
  json_Marshal :: "(string \<rightharpoonup> string) \<Rightarrow> string + string"
  json_Unmarshal :: "string \<Rightarrow> string + (string \<rightharpoonup> string)"

text \<open>
  The callbacks handed to \<open>g.Update\<close>, one constructor per closure of the program:
  printing a message into a region, clearing a region and printing into it, the body of
  \<open>PrintBody\<close>, and the rendering of a response for the request at an address.
\<close>

datatype update =
    UFprintf string string
  | UClearFprintf string string
  | UPrintBody
  | URender nat Response

text \<open>
  The application with its user interface. \<open>store\<close> holds the \<open>Request\<close> objects;
  a \<open>*Request\<close> is an index into it. \<open>sent\<close> lists the requests handed to
  \<open>CLIENT.Do\<close>, \<open>updates\<close> the callbacks queued by \<open>g.Update\<close> and not yet run.
\<close>

record state =
  views :: "string \<rightharpoonup> View"
  updates :: "update list"
  store :: "Request list"
  history :: "nat list"
  historyIndex :: int
  viewIndex :: int
  currentPopup :: string
  currentView :: string
  gCursor :: bool
  sent :: "HttpRequest list"

section \<open>Regions\<close>

definition View_Clear :: "string \<Rightarrow> state \<Rightarrow> state option" where
  \<comment> \<open>\<open>v, _ := g.View(name); v.Clear()\<close>; \<open>None\<close> is the nil dereference\<close>
  "View_Clear name s =
     (case views s name of None \<Rightarrow> None
      | Some v \<Rightarrow> Some (s\<lparr>views := (views s)(name \<mapsto> v\<lparr>written := []\<rparr>)\<rparr>))"

definition Fprint :: "string \<Rightarrow> string \<Rightarrow> state \<Rightarrow> state option" where
  \<comment> \<open>\<open>v, _ := g.View(name); fmt.Fprint(v, text)\<close>\<close>
  "Fprint name txt s =
     (case views s name of None \<Rightarrow> None
      | Some v \<Rightarrow> Some (s\<lparr>views := (views s)(name \<mapsto> v\<lparr>written := written v @ txt\<rparr>)\<rparr>))"

definition SetTitle :: "string \<Rightarrow> string \<Rightarrow> state \<Rightarrow> state option" where
  "SetTitle name t s =
     (case views s name of None \<Rightarrow> None
      | Some v \<Rightarrow> Some (s\<lparr>views := (views s)(name \<mapsto> v\<lparr>title := t\<rparr>)\<rparr>))"

definition SetCursor :: "int \<Rightarrow> int \<Rightarrow> View \<Rightarrow> View" where
  \<comment> \<open>the toolkit refuses a point outside the region; the program ignores the refusal\<close>
  "SetCursor x y v =
     (if x < 0 \<or> fst (vsize v) \<le> x \<or> y < 0 \<or> snd (vsize v) \<le> y then v
      else v\<lparr>cursor := (x, y)\<rparr>)"

definition setViewTextAndCursor :: "string \<Rightarrow> string \<Rightarrow> state \<Rightarrow> state option" where
  \<comment> \<open>\<open>v, _ = g.View(name); setViewTextAndCursor(v, s)\<close>\<close>
  "setViewTextAndCursor name str s =
     (case views s name of None \<Rightarrow> None
      | Some v \<Rightarrow>
          Some (s\<lparr>views := (views s)(name \<mapsto>
                  SetCursor (int (length str)) 0 (v\<lparr>written := str\<rparr>))\<rparr>))"

definition getViewValue :: "('u, 'q) env \<Rightarrow> state \<Rightarrow> string \<Rightarrow> string" where
  "getViewValue env s name =
     (case views s name of None \<Rightarrow> []
      | Some v \<Rightarrow> TrimSpace env (Buffer env (written v)))"

definition DeleteView :: "string \<Rightarrow> state \<Rightarrow> state" where
  "DeleteView name s = s\<lparr>views := (views s)(name := None)\<rparr>"

definition SetCurrentView :: "string \<Rightarrow> state \<Rightarrow> state" where
  "SetCurrentView name s =
     (case views s name of None \<Rightarrow> s | Some v \<Rightarrow> s\<lparr>currentView := name\<rparr>)"

definition enqueue :: "update \<Rightarrow> state \<Rightarrow> state" where
  \<comment> \<open>\<open>g.Update(f)\<close>\<close>
  "enqueue u s = s\<lparr>updates := updates s @ [u]\<rparr>"

definition popup :: "string \<Rightarrow> state \<Rightarrow> state" where
  \<comment> \<open>Both horizontal edges sit at the same fraction of the terminal width, so the inner
      width of the region is \<open>2 * (len(msg) / 2) + 1\<close> and its inner height \<open>1\<close>. A new
      region gets the title and the text of \<open>VIEW_PROPERTIES\<close>; one that exists is only
      placed again.\<close>
  "popup msg s =
     (let sz = (2 * (int (length msg) div 2) + 1, 1) in
      case views s POPUP_VIEW of
        Some v \<Rightarrow> s\<lparr>views := (views s)(POPUP_VIEW \<mapsto> v\<lparr>vsize := sz\<rparr>)\<rparr>
      | None \<Rightarrow>
          s\<lparr>views := (views s)(POPUP_VIEW \<mapsto>
               SetCursor (int (length msg)) 0
                 \<lparr>written = msg, cursor = (0, 0), title = ''Info'', vsize = sz\<rparr>)\<rparr>)"

definition go_rem :: "int \<Rightarrow> int \<Rightarrow> int" where
  \<comment> \<open>Go's \<open>%\<close>: the remainder has the sign of the dividend\<close>
  "go_rem a b = (if 0 \<le> a then a mod \<bar>b\<bar> else - ((- a) mod \<bar>b\<bar>))"

definition VIEWS_at :: "int \<Rightarrow> string option" where
  \<comment> \<open>\<open>VIEWS[i]\<close>; \<open>None\<close> is the index out of range\<close>
  "VIEWS_at i = (if 0 \<le> i \<and> i < int (length VIEWS) then Some (VIEWS ! nat i) else None)"

definition closePopup :: "string \<Rightarrow> state \<Rightarrow> state option" where
  "closePopup viewname s =
     (case views s viewname of None \<Rightarrow> Some s
      | Some v \<Rightarrow>
          do {
            name \<leftarrow> VIEWS_at (go_rem (viewIndex s) (int (length VIEWS)));
            Some ((SetCurrentView name (DeleteView viewname (s\<lparr>currentPopup := []\<rparr>)))
                    \<lparr>gCursor := True\<rparr>)
          })"

section \<open>The history and \<open>PrintBody\<close>\<close>

definition history_at :: "state \<Rightarrow> int \<Rightarrow> nat option" where
  \<comment> \<open>\<open>a.history[i]\<close>; \<open>None\<close> is the index out of range\<close>
  "history_at s i =
     (if 0 \<le> i \<and> i < int (length (history s)) then Some (history s ! nat i) else None)"

definition deref :: "state \<Rightarrow> nat \<Rightarrow> Request option" where
  "deref s p = (if p < length (store s) then Some (store s ! p) else None)"

definition PrintBody :: "state \<Rightarrow> state" where
  \<comment> \<open>\<open>a.PrintBody(g)\<close> only queues its body\<close>
  "PrintBody s = enqueue UPrintBody s"

definition print_results :: "string list \<Rightarrow> string" where
  \<comment> \<open>the loop \<open>fmt.Fprintf(vrb, "-----\\n%s\\n", result)\<close>\<close>
  "print_results results = concat (map (\<lambda>result. ''-----\<newline>'' @ result @ ''\<newline>'') results)"

definition PrintBody_update :: "('u, 'q) env \<Rightarrow> state \<Rightarrow> state option" where
  "PrintBody_update env s =
     (if history s = [] then Some s
      else
        do {
          p \<leftarrow> history_at s (historyIndex s);
          req \<leftarrow> deref s p;
          (case RawResponseBody req of
             None \<Rightarrow> Some s
           | Some raw \<Rightarrow>
               do {
                 s1 \<leftarrow> View_Clear RESPONSE_BODY_VIEW s;
                 responseFormatter \<leftarrow> Formatter req;
                 s2 \<leftarrow> SetTitle RESPONSE_BODY_VIEW
                        (''Response body'' @ '' '' @ fTitle responseFormatter) s1;
                 let search_text = getViewValue env s2 SEARCH_VIEW in
                 if search_text = [] \<or> \<not> fSearchable responseFormatter then
                   (case fFormat responseFormatter raw of
                      (out, None) \<Rightarrow> Fprint RESPONSE_BODY_VIEW out s2
                    | (out, Some err) \<Rightarrow>
                        Fprint RESPONSE_BODY_VIEW
                          (out @ ''Error: cannot decode response body: '' @ err) s2)
                 else
                   let responseFormatter' =
                         (if \<not> ContextSpecificSearch env then DEFAULT_FORMATTER env
                          else responseFormatter) in
                   (case fSearch responseFormatter' search_text raw of
                      Inl err \<Rightarrow> Fprint RESPONSE_BODY_VIEW (''Search error: '' @ err) s2
                    | Inr results \<Rightarrow>
                        if results = [] then
                          do {
                            s3 \<leftarrow> SetTitle RESPONSE_BODY_VIEW ''No results'' s2;
                            Fprint RESPONSE_BODY_VIEW ''Error: no results'' s3
                          }
                        else
                          do {
                            s3 \<leftarrow> SetTitle RESPONSE_BODY_VIEW
                                   (itoa (int (length results)) @ '' results'') s2;
                            Fprint RESPONSE_BODY_VIEW (print_results results) s3
                          })
               })
        })"


section \<open>HTTP headers\<close>

definition Header_Set :: "('u, 'q) env \<Rightarrow> http_Header \<Rightarrow> string \<Rightarrow> string \<Rightarrow> http_Header" where
  \<comment> \<open>\<open>h.Set(key, value)\<close>\<close>
  "Header_Set env h key v =
     (CanonicalMIMEHeaderKey env key, [v])
       # filter (\<lambda>kv. fst kv \<noteq> CanonicalMIMEHeaderKey env key) h"

definition Header_Get :: "('u, 'q) env \<Rightarrow> http_Header \<Rightarrow> string \<Rightarrow> string" where
  \<comment> \<open>\<open>h.Get(key)\<close>: the first value of the canonical key, or the empty string\<close>
  "Header_Get env h key =
     (case map_of h (CanonicalMIMEHeaderKey env key) of
        None \<Rightarrow> [] | Some [] \<Rightarrow> [] | Some (v # vs) \<Rightarrow> v)"

definition header_values :: "http_Header \<Rightarrow> string \<Rightarrow> string list" where
  \<comment> \<open>\<open>h[hname]\<close>\<close>
  "header_values h hname = (case map_of h hname of None \<Rightarrow> [] | Some vs \<Rightarrow> vs)"

definition writeSortedHeaders :: "http_Header \<Rightarrow> string" where
  "writeSortedHeaders h =
     concat (map (\<lambda>hname.
                ESC # ''[0;33m'' @ hname @ '':'' @ ESC # ''[0;0m '' @
                Join (header_values h hname) '','' @ ''\<newline>'')
             (sort (remdups (map fst h))))"

definition valid_header :: "string \<Rightarrow> bool" where
  \<comment> \<open>the test \<open>len(header_parts) == 2\<close> of the header loop\<close>
  "valid_header header \<longleftrightarrow> length (SplitN2 header '': '') = 2"

fun set_headers ::
    "('u, 'q) env \<Rightarrow> string list \<Rightarrow> http_Header \<Rightarrow> string + http_Header" where
  \<comment> \<open>the loop over the header lines; \<open>Inl\<close> is the line that is refused\<close>
  "set_headers env [] headers = Inr headers"
| "set_headers env (header # rest) headers =
     (if header \<noteq> [] then
        (case SplitN2 header '': '' of
           [name, v] \<Rightarrow> set_headers env rest (Header_Set env headers name v)
         | _ \<Rightarrow> Inl header)
      else set_headers env rest headers)"

section \<open>Submitting a request\<close>

definition http_MethodPost :: string where "http_MethodPost = ''POST''"
definition http_MethodPut :: string where "http_MethodPut = ''PUT''"
definition http_MethodPatch :: string where "http_MethodPatch = ''PATCH''"

definition put :: "nat \<Rightarrow> Request \<Rightarrow> state \<Rightarrow> state" where
  \<comment> \<open>the fields assigned through the pointer \<open>r\<close> so far\<close>
  "put r rq s = s\<lparr>store := (store s)[r := rq]\<rparr>"

definition abort :: "nat \<Rightarrow> Request \<Rightarrow> string \<Rightarrow> state \<Rightarrow> state option" where
  \<comment> \<open>an error is reported by a callback that prints it into the response region; the
      task returns\<close>
  "abort r rq msg s = Some (enqueue (UFprintf RESPONSE_BODY_VIEW msg) (put r rq s))"

definition status_line :: "('u, 'q) env \<Rightarrow> int \<Rightarrow> string" where
  \<comment> \<open>\<open>"\\x1b[0;%dmHTTP/1.1 %v %v\\x1b[0;0m\\n"\<close>\<close>
  "status_line env code =
     ESC # ''[0;'' @ itoa (if code \<noteq> 200 then 31 else 32) @ ''mHTTP/1.1 '' @ itoa code @
     '' '' @ http_StatusText env code @ ESC # ''[0;0m\<newline>''"

definition render_response :: "('u, 'q) env \<Rightarrow> nat \<Rightarrow> Response \<Rightarrow> state \<Rightarrow> state option" where
  \<comment> \<open>the callback that renders a response: \<open>r\<close> is the address of the request\<close>
  "render_response env r response s =
     (let s1 = PrintBody s;
          header = status_line env (StatusCode response) @
                   writeSortedHeaders (RespHeader response) @
                   writeSortedHeaders (Trailer response)
      in
        do {
          rq \<leftarrow> deref s1 r;
          Fprint RESPONSE_HEADERS_VIEW header (put r (rq\<lparr>ResponseHeaders := header\<rparr>) s1)
        })"

definition request_body ::
    "('u, 'q) env \<Rightarrow> http_Header \<Rightarrow> string \<Rightarrow> multipart_outcome" where
  \<comment> \<open>the body of a POST, PUT or PATCH request from the text of the data region\<close>
  "request_body env headers bodyStr =
     (if Header_Get env headers ''Content-Type'' \<noteq> ''multipart/form-data'' then
        MPBody (if Header_Get env headers ''Content-Type'' = ''application/x-www-form-urlencoded''
                then Replace1 bodyStr nl CHR ''&'' else bodyStr)
      else multipart env (Replace1 bodyStr nl CHR ''&''))"

definition do_request ::
    "('u, 'q) env \<Rightarrow> nat \<Rightarrow> Request \<Rightarrow> HttpRequest \<Rightarrow> state \<Rightarrow> state option" where
  \<comment> \<open>from \<open>CLIENT.Do\<close> to the callback that renders the response\<close>
  "do_request env r rq req s =
     (let s1 = s\<lparr>sent := sent s @ [req]\<rparr>;
          rq1 = rq\<lparr>Duration := snd (CLIENT_Do env req)\<rparr>
      in
        case fst (CLIENT_Do env req) of
          Inl err \<Rightarrow> abort r rq1 (''Response error: '' @ err) s1
        | Inr response \<Rightarrow>
            let rq2 = rq1\<lparr>ContentType := Header_Get env (RespHeader response) ''Content-Type''\<rparr> in
            (case (if Header_Get env (RespHeader response) ''Content-Encoding'' = ''gzip''
                   then Gunzip response else Inr (ReadAll response)) of
               Inl err \<Rightarrow> abort r rq2 (''Cannot uncompress response: '' @ err) s1
             | Inr bodyBytes \<Rightarrow>
                 let rq3 = (case bodyBytes of None \<Rightarrow> rq2
                            | Some b \<Rightarrow> rq2\<lparr>RawResponseBody := Some b\<rparr>);
                     rq4 = rq3\<lparr>Formatter := Some (formatter_New env (ContentType rq3))\<rparr>;
                     s2 = put r rq4 s1;
                     s3 = s2\<lparr>history := history s2 @ [r]\<rparr>;
                     s4 = s3\<lparr>historyIndex := int (length (history s3)) - 1\<rparr>
                 in Some (enqueue (URender r response) s4)))"

definition carries_body :: "string \<Rightarrow> bool" where
  \<comment> \<open>\<open>r.Method == http.MethodPost || r.Method == http.MethodPut || r.Method == http.MethodPatch\<close>\<close>
  "carries_body m \<longleftrightarrow> m = http_MethodPost \<or> m = http_MethodPut \<or> m = http_MethodPatch"

definition make_request ::
    "('u, 'q) env \<Rightarrow> nat \<Rightarrow> Request \<Rightarrow> 'u \<Rightarrow> http_Header \<Rightarrow> state \<Rightarrow> state option" where
  \<comment> \<open>the task once the headers are set: the body, \<open>http.NewRequest\<close>, the exchange\<close>
  "make_request env r rq3 u headers s =
     (let bodyStr = getViewValue env s REQUEST_DATA_VIEW;
          rq4 = (if carries_body (Method rq3) then rq3\<lparr>Data := bodyStr\<rparr> else rq3)
      in
      case (if carries_body (Method rq3) then request_body env headers bodyStr
            else MPBody []) of
        MPQueryError \<Rightarrow> Some (put r rq4 s)
      | MPOpenError err \<Rightarrow> abort r rq4 (''Error: '' @ err) s
      | MPWriteError \<Rightarrow> Some (put r rq4 s)
      | MPBody b \<Rightarrow>
          (let body = (if carries_body (Method rq3) then Some b else None);
               target = url_String env u (GetParams rq4)
           in
           case http_NewRequest env (Method rq4) target body of
             Some err \<Rightarrow> abort r rq4 (''Request error: '' @ err) s
           | None \<Rightarrow>
               do_request env r rq4
                 \<lparr>reqMethod = Method rq4, reqURL = target, reqBody = body,
                  reqHeader = headers,
                  reqHost = (if Header_Get env headers ''Host'' \<noteq> []
                             then Some (Header_Get env headers ''Host'') else None)\<rparr> s))"

definition submit_task :: "('u, 'q) env \<Rightarrow> nat \<Rightarrow> state \<Rightarrow> state option" where
  \<comment> \<open>the body of the goroutine of \<open>SubmitRequest\<close>, run to its end; \<open>r\<close> is the address
      of the new request\<close>
  "submit_task env r s =
     (let rq0 = Request0\<lparr>Url := getViewValue env s URL_VIEW\<rparr> in
      case url_Parse env (Url rq0) of
        Inl err \<Rightarrow> abort r rq0 (''URL parse error: '' @ err) s
      | Inr u \<Rightarrow>
          (case url_ParseQuery env
                  (Replace1 (getViewValue env s URL_PARAMS_VIEW) nl CHR ''&'') of
             Inl err \<Rightarrow> abort r rq0 (''Invalid GET parameters: '' @ err) s
           | Inr q \<Rightarrow>
               (let rq1 = rq0\<lparr>GetParams := query_Encode env u q\<rparr>;
                    rq2 = rq1\<lparr>Method := getViewValue env s REQUEST_METHOD_VIEW\<rparr>;
                    rq3 = rq2\<lparr>Headers := getViewValue env s REQUEST_HEADERS_VIEW\<rparr>
                in
                case set_headers env (Split1 (Headers rq3) nl)
                       (Header_Set env [] ''User-Agent'' []) of
                  Inl header \<Rightarrow> abort r rq3 (''Invalid header: '' @ header) s
                | Inr headers \<Rightarrow> make_request env r rq3 u headers s)))"

definition submit_prepare :: "state \<Rightarrow> state option" where
  \<comment> \<open>the handler before it starts the task: it clears the two response regions, shows
      the popup and allocates the request \<open>r := &Request{}\<close> at the end of the store\<close>
  "submit_prepare s =
     do {
       s1 \<leftarrow> View_Clear RESPONSE_BODY_VIEW s;
       s2 \<leftarrow> View_Clear RESPONSE_HEADERS_VIEW s1;
       let s3 = popup ''Sending request..'' s2 in
       Some (s3\<lparr>store := store s3 @ [Request0]\<rparr>)
     }"

definition SubmitRequest :: "('u, 'q) env \<Rightarrow> state \<Rightarrow> state option" where
  \<comment> \<open>the task is run to its end; its deferred call deletes the popup\<close>
  "SubmitRequest env s =
     do {
       s4 \<leftarrow> submit_prepare s;
       s5 \<leftarrow> submit_task env (length (store s)) s4;
       Some (DeleteView POPUP_VIEW s5)
     }"

section \<open>Saving and loading a request\<close>

definition export_map :: "Request \<Rightarrow> (string \<rightharpoonup> string)" where
  \<comment> \<open>the map literal \<open>requestMap\<close> of \<open>exportJSON\<close>\<close>
  "export_map r =
     [URL_VIEW \<mapsto> Url r, REQUEST_METHOD_VIEW \<mapsto> Method r,
      URL_PARAMS_VIEW \<mapsto> GetParams r, REQUEST_DATA_VIEW \<mapsto> Data r,
      REQUEST_HEADERS_VIEW \<mapsto> Headers r]"


definition load_field :: "(string \<rightharpoonup> string) \<Rightarrow> string \<Rightarrow> state \<Rightarrow> state option" where
  \<comment> \<open>\<open>x, exists := requestMap[name]; if exists { v, _ = g.View(name); setViewTextAndCursor(v, x) }\<close>\<close>
  "load_field requestMap name s =
     (case requestMap name of None \<Rightarrow> Some s | Some x \<Rightarrow> setViewTextAndCursor name x s)"

definition LoadRequest :: "('u, 'q) env \<Rightarrow> string \<Rightarrow> state \<Rightarrow> state option" where
  "LoadRequest env loadLocation s =
     (case os_ReadFile env loadLocation of
        Inl ioErr \<Rightarrow>
          Some (enqueue (UClearFprintf RESPONSE_BODY_VIEW (''File reading error: '' @ ioErr)) s)
      | Inr requestJson \<Rightarrow>
          (case json_Unmarshal env requestJson of
             Inl jsonErr \<Rightarrow>
               Some (enqueue
                 (UClearFprintf RESPONSE_BODY_VIEW (''JSON decoding error: '' @ jsonErr)) s)
           | Inr requestMap \<Rightarrow>
               do {
                 s1 \<leftarrow> load_field requestMap URL_VIEW s;
                 s2 \<leftarrow> load_field requestMap REQUEST_METHOD_VIEW s1;
                 s3 \<leftarrow> load_field requestMap URL_PARAMS_VIEW s2;
                 let s4 = (case requestMap REQUEST_DATA_VIEW of None \<Rightarrow> s3
                           | Some data \<Rightarrow> enqueue (UClearFprintf REQUEST_DATA_VIEW data) s3)
                 in load_field requestMap REQUEST_HEADERS_VIEW s4
               }))"

section \<open>Recalling a request of the history\<close>

definition restoreRequest :: "int \<Rightarrow> state \<Rightarrow> state option" where
  "restoreRequest idx s =
     (if idx < 0 \<or> int (length (history s)) \<le> idx then Some s
      else
        do {
          s1 \<leftarrow> closePopup HISTORY_VIEW s;
          let s2 = s1\<lparr>historyIndex := idx\<rparr> in
          do {
            p \<leftarrow> history_at s2 idx;
            r \<leftarrow> deref s2 p;
            s3 \<leftarrow> setViewTextAndCursor URL_VIEW (Url r) s2;
            s4 \<leftarrow> setViewTextAndCursor REQUEST_METHOD_VIEW (Method r) s3;
            s5 \<leftarrow> setViewTextAndCursor URL_PARAMS_VIEW (GetParams r) s4;
            s6 \<leftarrow> setViewTextAndCursor REQUEST_DATA_VIEW (Data r) s5;
            s7 \<leftarrow> setViewTextAndCursor REQUEST_HEADERS_VIEW (Headers r) s6;
            s8 \<leftarrow> setViewTextAndCursor RESPONSE_HEADERS_VIEW (ResponseHeaders r) s7;
            Some (PrintBody s8)
          }
        })"

section \<open>Running the queued callbacks\<close>

fun run_update :: "('u, 'q) env \<Rightarrow> update \<Rightarrow> state \<Rightarrow> state option" where
  "run_update env (UFprintf name msg) s = Fprint name msg s"
| "run_update env (UClearFprintf name msg) s =
     do { s1 \<leftarrow> View_Clear name s; Fprint name msg s1 }"
| "run_update env UPrintBody s = PrintBody_update env s"
| "run_update env (URender r response) s = render_response env r response s"

fun weight :: "update \<Rightarrow> nat" where
  "weight (URender r response) = 2"
| "weight u = 1"

function flush :: "('u, 'q) env \<Rightarrow> state \<Rightarrow> state option" where
  \<comment> \<open>the main loop takes the callbacks in the order they were queued, until none is left\<close>
  "flush env s =
     (case updates s of
        [] \<Rightarrow> Some s
      | u # us \<Rightarrow>
          (case run_update env u (s\<lparr>updates := us\<rparr>) of
             None \<Rightarrow> None
           | Some s' \<Rightarrow> flush env s'))"
  by pat_completeness auto
termination
proof (relation "measure (\<lambda>(env, s). sum_list (map weight (updates s)))")
  show "wf (measure (\<lambda>(env :: ('u, 'q) env, s). sum_list (map weight (updates s))))"
    by simp
next
  fix env :: "('u, 'q) env" and s u us s'
  assume q: "updates s = u # us" and r: "run_update env u (s\<lparr>updates := us\<rparr>) = Some s'"
  have "sum_list (map weight (updates s')) < weight u + sum_list (map weight us)"
  proof (cases u)
    case (UFprintf name msg)
    then show ?thesis using r
      by (auto simp: Fprint_def split: option.splits)
  next
    case (UClearFprintf name msg)
    then show ?thesis using r
      by (auto simp: Fprint_def View_Clear_def split: option.splits Option.bind_splits)
  next
    case UPrintBody
    have "updates s' = us" using r UPrintBody
      by (auto simp: PrintBody_update_def Fprint_def View_Clear_def SetTitle_def Let_def
               split: option.splits Option.bind_splits if_splits sum.splits prod.splits)
    then show ?thesis using UPrintBody by simp
  next
    case (URender p response)
    have "updates s' = us @ [UPrintBody]" using r URender
      by (auto simp: render_response_def Fprint_def PrintBody_def enqueue_def put_def
               deref_def Let_def split: option.splits Option.bind_splits if_splits)
    then show ?thesis using URender by simp
  qed
  then show "((env, s'), (env, s)) \<in> measure (\<lambda>(env, s). sum_list (map weight (updates s)))"
    using q by simp
qed

declare flush.simps [simp del]

definition initial :: "(string \<rightharpoonup> View) \<Rightarrow> state" where
  \<comment> \<open>\<open>app := &App{history: make([]*Request, 0, 31)}\<close>, with the regions of the first
      layout\<close>
  "initial vs = \<lparr>views = vs, updates = [], store = [], history = [], historyIndex = 0,
     viewIndex = 0, currentPopup = [], currentView = URL_VIEW, gCursor = True, sent = []\<rparr>"



section \<open>Runs of the application\<close>

text \<open>
  The operations that touch the history, as events: a submit and a load with the
  collaborators they meet, a recall of an entry, and the main loop running the callback
  at the head of the queue.
\<close>

datatype ('u, 'q) event =
    Submit "('u, 'q) env"
  | Restore int
  | Load "('u, 'q) env" string
  | Callback "('u, 'q) env"

fun apply_event :: "('u, 'q) event \<Rightarrow> state \<Rightarrow> state option" where
  "apply_event (Submit env) s = SubmitRequest env s"
| "apply_event (Restore idx) s = restoreRequest idx s"
| "apply_event (Load env loadLocation) s = LoadRequest env loadLocation s"
| "apply_event (Callback env) s =
     (case updates s of [] \<Rightarrow> Some s | u # us \<Rightarrow> run_update env u (s\<lparr>updates := us\<rparr>))"

fun run :: "('u, 'q) event list \<Rightarrow> state \<Rightarrow> state option" where
  "run [] s = Some s"
| "run (ev # evs) s = (case apply_event ev s of None \<Rightarrow> None | Some s1 \<Rightarrow> run evs s1)"

section \<open>Invariants and readings of the state\<close>

definition history_inv :: "state \<Rightarrow> bool" where
  \<comment> \<open>the cursor of the history is valid\<close>
  "history_inv s \<longleftrightarrow>
     (if history s = [] then historyIndex s = 0
      else 0 \<le> historyIndex s \<and> historyIndex s < int (length (history s)))"

definition regions_exist :: "state \<Rightarrow> bool" where
  \<comment> \<open>the regions of the layout exist\<close>
  "regions_exist s \<longleftrightarrow> list_all (\<lambda>name. views s name \<noteq> None) VIEWS"

definition entries_ok :: "state \<Rightarrow> bool" where
  \<comment> \<open>every entry of the history points into the store, at a request with a formatter\<close>
  "entries_ok s \<longleftrightarrow>
     list_all (\<lambda>p. p < length (store s) \<and> Formatter (store s ! p) \<noteq> None) (history s)"

definition focus_ok :: "state \<Rightarrow> bool" where
  "focus_ok s \<longleftrightarrow> 0 \<le> viewIndex s \<and> viewIndex s < int (length VIEWS)"

definition render_body ::
    "('u, 'q) env \<Rightarrow> string \<Rightarrow> ResponseFormatter \<Rightarrow> string \<Rightarrow> string" where
  \<comment> \<open>the text the body of \<open>PrintBody\<close> leaves in the response region, for a search text,
      the formatter of the request and its raw body\<close>
  "render_body env search_text fm raw =
     (if search_text = [] \<or> \<not> fSearchable fm then
        (case fFormat fm raw of
           (out, None) \<Rightarrow> out
         | (out, Some e) \<Rightarrow> out @ ''Error: cannot decode response body: '' @ e)
      else
        (case fSearch (if ContextSpecificSearch env then fm else DEFAULT_FORMATTER env)
                search_text raw of
           Inl e \<Rightarrow> ''Search error: '' @ e
         | Inr results \<Rightarrow>
             if results = [] then ''Error: no results'' else print_results results))"

definition field_text :: "state \<Rightarrow> string \<Rightarrow> string option" where
  \<comment> \<open>the text a region holds, if the region exists\<close>
  "field_text s name = map_option written (views s name)"

definition response_text :: "state \<Rightarrow> string option" where
  "response_text s = field_text s RESPONSE_BODY_VIEW"

section \<open>Sample data for the witnesses\<close>

text \<open>
  A terminal with the eight regions of \<open>VIEWS\<close> and given texts in the five request
  fields, and stand-ins for the collaborators: a URL parser that refuses \<open>:\<close>, a
  network whose host \<open>down.example\<close> refuses connections, a formatter that prints the
  body as it is, and a JSON codec that knows one request.
\<close>

definition view0 :: "string \<Rightarrow> View" where
  "view0 txt = \<lparr>written = txt, cursor = (0, 0), title = [], vsize = (80, 24)\<rparr>"

definition sample_state :: "string \<Rightarrow> string \<Rightarrow> string \<Rightarrow> string \<Rightarrow> string \<Rightarrow> state" where
  "sample_state url params method data headers =
     initial (map_of
       [(URL_VIEW, view0 url), (URL_PARAMS_VIEW, view0 params),
        (REQUEST_METHOD_VIEW, view0 method), (REQUEST_DATA_VIEW, view0 data),
        (REQUEST_HEADERS_VIEW, view0 headers), (SEARCH_VIEW, view0 []),
        (RESPONSE_HEADERS_VIEW, view0 ''old headers''), (RESPONSE_BODY_VIEW, view0 ''old body'')])"

definition text_formatter :: ResponseFormatter where
  "text_formatter = \<lparr>fTitle = ''[text]'', fSearchable = False,
     fFormat = (\<lambda>raw. (raw, None)), fSearch = (\<lambda>q raw. Inr [])\<rparr>"

definition response0 :: Response where
  "response0 = \<lparr>StatusCode = 200, RespHeader = [(''Content-Type'', [''text/plain''])],
     Trailer = [], ReadAll = Some ''hello'', Gunzip = Inr (Some ''hello'')\<rparr>"

definition request0 :: Request where
  "request0 = Request0\<lparr>Url := ''http://example.com/'', Method := ''POST'',
     GetParams := ''a=1'', Data := ''x=y'', Headers := ''Accept: text/plain''\<rparr>"

definition json0 :: string where
  "json0 = ''{data:x=y,get:a=1,headers:Accept: text/plain,method:POST,url:http://example.com/}''"

definition env0 :: "(string, string) env" where
  "env0 = \<lparr>TrimSpace = (\<lambda>s. s), Buffer = (\<lambda>s. s),
     url_Parse = (\<lambda>s. if s = '':'' then Inl ''missing protocol scheme'' else Inr s),
     url_ParseQuery = (\<lambda>s. Inr s),
     query_Encode = (\<lambda>u q. q),
     url_String = (\<lambda>u raw. if raw = [] then u else u @ ''?'' @ raw),
     CanonicalMIMEHeaderKey = (\<lambda>s. s),
     multipart = (\<lambda>s. MPBody s),
     http_NewRequest = (\<lambda>m u b. None),
     CLIENT_Do = (\<lambda>req. (if reqURL req = ''http://down.example/''
                           then Inl ''connection refused'' else Inr response0, 7)),
     formatter_New = (\<lambda>ct. text_formatter),
     http_StatusText = (\<lambda>c. ''OK''),
     DEFAULT_FORMATTER = text_formatter,
     ContextSpecificSearch = False,
     os_ReadFile = (\<lambda>p. if p = ''/tmp/request.json'' then Inr json0 else Inl ''no such file''),
     json_Marshal = (\<lambda>m. Inr json0),
     json_Unmarshal = (\<lambda>s. if s = json0 then Inr (export_map request0)
                          else Inl ''invalid character'')\<rparr>"

definition entryA :: Request where
  "entryA = request0\<lparr>ResponseHeaders := ''HTTP/1.1 200 OK'', RawResponseBody := Some ''first'',
     ContentType := ''text/plain'', Formatter := Some text_formatter\<rparr>"

definition entryB :: Request where
  "entryB = Request0\<lparr>Url := ''http://example.org/b'', Method := ''GET'',
     ResponseHeaders := ''HTTP/1.1 404 Not Found'', RawResponseBody := Some ''second'',
     Formatter := Some text_formatter\<rparr>"

definition two_requests :: state where
  \<comment> \<open>the sample terminal after two requests, the second one displayed\<close>
  "two_requests = (sample_state ''http://example.org/b'' [] ''GET'' [] [])
     \<lparr>store := [entryA, entryB], history := [0, 1], historyIndex := 1\<rparr>"

lemmas view_names =
  URL_VIEW_def URL_PARAMS_VIEW_def REQUEST_METHOD_VIEW_def REQUEST_DATA_VIEW_def
  REQUEST_HEADERS_VIEW_def SEARCH_VIEW_def RESPONSE_HEADERS_VIEW_def RESPONSE_BODY_VIEW_def
  POPUP_VIEW_def HISTORY_VIEW_def

section \<open>Properties of \<open>completeFromSlice\<close>\<close>

lemma complete_loop_filter:
  "complete_loop str cs acc =
     acc @ filter (\<lambda>c. HasPrefix c str \<and> str \<noteq> c) cs"
  by (induction cs arbitrary: acc) simp_all

lemma TrimRight_changes_iff:
  "TrimRight s cutset \<noteq> s \<longleftrightarrow> s \<noteq> [] \<and> last s \<in> set cutset"
proof (cases s rule: rev_cases)
  case Nil
  then show ?thesis by (simp add: TrimRight_def)
next
  case (snoc ys y)
  show ?thesis
  proof (cases "y \<in> set cutset")
    case True
    have "length (TrimRight s cutset) \<le> length ys"
      using snoc True length_dropWhile_le [of "\<lambda>c. c \<in> set cutset" "rev ys"]
      by (simp add: TrimRight_def)
    then have "TrimRight s cutset \<noteq> s"
      using snoc by auto
    then show ?thesis using snoc True by simp
  next
    case False
    then show ?thesis using snoc by (simp add: TrimRight_def)
  qed
qed

text \<open>
  C1 (amended). For every token and candidate list, \<open>completeFromSlice\<close> returns the empty
  list when the token is empty or ends in a space or a newline (the two bytes of the
  cutset), and otherwise exactly the candidates that have the token as a strict prefix,
  in their order in the candidate list. A token that ends in another whitespace
  character is not special.
\<close>

theorem completeFromSlice_spec:
  "completeFromSlice T C =
     (if T = [] \<or> last T = CHR '' '' \<or> last T = nl then []
      else filter (\<lambda>c. strict_prefix T c) C)"
proof -
  have "TrimRight T [CHR '' '', nl] \<noteq> T \<longleftrightarrow> T \<noteq> [] \<and> (last T = CHR '' '' \<or> last T = nl)"
    by (simp add: TrimRight_changes_iff)
  moreover have "(\<lambda>c. HasPrefix c T \<and> T \<noteq> c) = (\<lambda>c. strict_prefix T c)"
    by (auto simp: HasPrefix_def strict_prefix_def)
  ultimately show ?thesis
    by (auto simp: completeFromSlice_def complete_loop_filter)
qed

theorem completeFromSlice_spec_witness:
  "completeFromSlice ''Acc'' [''Accept'', ''Acc'', ''Host'', ''Accept-Encoding'']
     = [''Accept'', ''Accept-Encoding'']
   \<and> completeFromSlice ''Acc '' [''Acc x''] = []"
  using completeFromSlice_spec [of "''Acc''" "[''Accept'', ''Acc'', ''Host'', ''Accept-Encoding'']"]
    completeFromSlice_spec [of "''Acc ''" "[''Acc x'']"]
  by (simp add: nl_def)

text \<open>
  C1 as stated fails for a token that ends in a tab: the tab is whitespace, and the
  candidate that extends the token is returned.
\<close>

theorem completeFromSlice_tab_counterexample:
  "completeFromSlice [CHR ''a'', CHR 0x09] [[CHR ''a'', CHR 0x09, CHR ''b'']]
     = [[CHR ''a'', CHR 0x09, CHR ''b'']]"
  by (simp add: completeFromSlice_def TrimRight_def HasPrefix_def nl_def)

section \<open>Properties of \<open>getCoordinate\<close>\<close>

lemma discard_floor: "0 \<le> m \<Longrightarrow> discard_fraction m e = \<lfloor>valof m e\<rfloor>"
proof (cases "0 \<le> e")
  case True
  have "\<lfloor>(of_int m :: real) * 2 ^ nat e\<rfloor> = \<lfloor>(of_int (m * 2 ^ nat e) :: real)\<rfloor>"
    by simp
  then show ?thesis using True by (simp add: discard_fraction_def valof_def del: of_int_mult)
next
  case False
  assume m: "0 \<le> m"
  have "\<lfloor>(of_int m :: real) / 2 ^ nat (- e)\<rfloor> = \<lfloor>(of_int m :: real) / of_int (2 ^ nat (- e))\<rfloor>"
    by simp
  also have "\<dots> = m div 2 ^ nat (- e)"
    by (rule floor_divide_of_int_eq)
  finally show ?thesis using False m
    by (cases "m = 0") (simp_all add: discard_fraction_def valof_def sgn_if)
qed

lemma discard_neg: "discard_fraction (- m) e = - discard_fraction m e"
  by (simp add: discard_fraction_def sgn_if)

lemma valof_neg: "valof (- m) e = - valof m e"
  by (simp add: valof_def)

lemma discard_ceiling: "m \<le> 0 \<Longrightarrow> discard_fraction m e = \<lceil>valof m e\<rceil>"
  using discard_floor [of "- m" e] discard_neg [of m e] valof_neg [of m e]
  by (simp add: ceiling_def)

lemma round32_exact:
  assumes "bitlength \<bar>m\<bar> \<le> 24" and "- 149 \<le> e" and "bitlength \<bar>m\<bar> + e \<le> 128"
  shows "round32 m e = Finite m e"
  using assms by (simp add: round32_def Let_def sgn_if abs_if)

text \<open>
  C2 (amended). When the product of the fraction and the size, computed in \<open>float32\<close>,
  is a finite value \<open>v\<close> of magnitude below \<open>2 ^ 63\<close>, \<open>getCoordinate\<close> returns \<open>v\<close> without
  its fraction plus the offset, as a 64-bit integer: \<open>\<lfloor>v\<rfloor>\<close> plus the offset for a \<open>v\<close>
  that is not negative, \<open>\<lceil>v\<rceil>\<close> plus the offset for a negative one. The result is a function
  of the fraction, the offset and the size alone.
\<close>

theorem getCoordinate_spec:
  assumes "f32_mul (pct p) (float32_of_int mx) = Finite m e"
    and "\<bar>valof m e\<bar> < 2 ^ 63"
  shows "getCoordinate p mx =
           Some (int64 ((if 0 \<le> m then \<lfloor>valof m e\<rfloor> else \<lceil>valof m e\<rceil>) + abs' p))"
proof -
  let ?t = "discard_fraction m e"
  have t: "?t = (if 0 \<le> m then \<lfloor>valof m e\<rfloor> else \<lceil>valof m e\<rceil>)"
    using discard_floor [of m e] discard_ceiling [of m e] by simp
  have "- (2 ^ 63) \<le> ?t \<and> ?t < 2 ^ 63"
  proof (cases "0 \<le> m")
    case True
    then have "0 \<le> valof m e" by (simp add: valof_def)
    then have "0 \<le> \<lfloor>valof m e\<rfloor>" by simp
    moreover have "\<lfloor>valof m e\<rfloor> < 2 ^ 63"
      using assms(2) by (simp add: floor_less_iff)
    ultimately show ?thesis using t True by simp
  next
    case False
    then have "valof m e \<le> 0" by (simp add: valof_def divide_nonpos_pos mult_nonpos_nonneg)
    then have "\<lceil>valof m e\<rceil> \<le> 0" by (simp add: ceiling_le_iff)
    moreover have "- (2 ^ 63) \<le> \<lceil>valof m e\<rceil>"
      using assms(2) by (simp add: le_ceiling_iff)
    ultimately show ?thesis using t False by simp
  qed
  then show ?thesis using assms(1) t
    by (simp add: getCoordinate_def int_of_float32_def Let_def)
qed


theorem getCoordinate_spec_witness:
  "f32_mul (Finite 10066330 (- 25)) (float32_of_int 81) = Finite 12740199 (- 19)
   \<and> getCoordinate \<lparr>pct = Finite 10066330 (- 25), abs' = 0\<rparr> 81 = Some 24
   \<and> getCoordinate \<lparr>pct = Finite 1 (- 1), abs' = - 9\<rparr> 81 = Some 31"
proof -
  have 1: "f32_mul (pct \<lparr>pct = Finite 10066330 (- 25), abs' = 0\<rparr>) (float32_of_int 81)
             = Finite 12740199 (- 19)"
    by code_simp
  have 2: "f32_mul (pct \<lparr>pct = Finite 1 (- 1), abs' = - 9\<rparr>) (float32_of_int 81)
             = Finite 81 (- 1)"
    by code_simp
  have 3: "\<bar>valof 12740199 (- 19)\<bar> < 2 ^ 63" "\<bar>valof 81 (- 1)\<bar> < 2 ^ 63"
    by (simp_all add: valof_def)
  show ?thesis
    using getCoordinate_spec [OF 1 3(1)] getCoordinate_spec [OF 2 3(2)] 1
    by (simp add: valof_def int64_def)
qed

text \<open>
  C2 as stated fails for a negative product: the fraction \<open>- 0.5\<close> of the size \<open>1\<close> resolves
  to \<open>0\<close>, and the floor of \<open>- 0.5\<close> is \<open>- 1\<close>.
\<close>

theorem getCoordinate_floor_counterexample:
  "getCoordinate \<lparr>pct = Finite (- 1) (- 1), abs' = 0\<rparr> 1 = Some 0
   \<and> \<lfloor>valof (- 1) (- 1) * 1\<rfloor> + 0 = (- 1 :: int)"
proof
  show "getCoordinate \<lparr>pct = Finite (- 1) (- 1), abs' = 0\<rparr> 1 = Some 0"
    by code_simp
  show "\<lfloor>valof (- 1) (- 1) * 1\<rfloor> + 0 = (- 1 :: int)"
    by (simp add: valof_def)
qed

section \<open>Properties of the back-tab handling\<close>

text \<open>
  C9 (the code departs from it). With the first byte of the escape sequence buffered, a
  character other than \<open>Z\<close> is forwarded after the replayed byte, but the flag stays
  set; the \<open>Z\<close> typed next is then taken for the end of the escape sequence and moves
  the focus instead of being inserted.
\<close>

theorem backTabEscape_not_reset:
  "ViewEditor_Edit True False Key0 0x61 ModNone
     = ([OrigEdit Key0 rune_lbracket ModAlt, OrigEdit Key0 0x61 ModNone], True)
   \<and> ViewEditor_Edit (snd (ViewEditor_Edit True False Key0 0x61 ModNone)) False Key0 rune_Z ModNone
     = ([PrevView], False)"
  by (simp add: ViewEditor_Edit_def rune_Z_def rune_lbracket_def)

section \<open>Facts about the header loop\<close>


lemma set_headers_good:
  "a = [] \<or> valid_header a \<Longrightarrow> \<exists>h'. set_headers env (a # ls) h = set_headers env ls h'"
  by (auto simp: valid_header_def SplitN2_def split: option.splits)


lemma set_headers_accepts:
  "find (\<lambda>l. l \<noteq> [] \<and> \<not> valid_header l) ls = None \<Longrightarrow> \<exists>h'. set_headers env ls h = Inr h'"
proof (induction ls arbitrary: h)
  case Nil
  then show ?case by simp
next
  case (Cons a ls)
  then have ok: "a = [] \<or> valid_header a"
    and f: "find (\<lambda>l. l \<noteq> [] \<and> \<not> valid_header l) ls = None"
    by (auto split: if_splits)
  from ok obtain h' where "set_headers env (a # ls) h = set_headers env ls h'"
    using set_headers_good [of a env ls h] by blast
  then show ?case using Cons.IH [OF f] by simp
qed

section \<open>Facts about the handler's preparation\<close>


lemma submit_prepare_frame:
  assumes "submit_prepare s = Some s4"
  shows "history s4 = history s" and "historyIndex s4 = historyIndex s"
    and "sent s4 = sent s" and "updates s4 = updates s"
    and "store s4 = store s @ [Request0]"
  using assms
  by (auto simp: submit_prepare_def View_Clear_def popup_def Let_def
           split: option.splits Option.bind_splits)

lemma submit_prepare_views:
  assumes "submit_prepare s = Some s4"
    and "name \<noteq> RESPONSE_BODY_VIEW" and "name \<noteq> RESPONSE_HEADERS_VIEW" and "name \<noteq> POPUP_VIEW"
  shows "views s4 name = views s name"
  using assms
  by (auto simp: submit_prepare_def View_Clear_def popup_def Let_def
           split: option.splits Option.bind_splits)

lemma submit_prepare_body:
  assumes "submit_prepare s = Some s4"
  shows "\<exists>v. views s4 RESPONSE_BODY_VIEW = Some v \<and> written v = []"
  using assms
  by (auto simp: submit_prepare_def View_Clear_def popup_def Let_def view_names
           split: option.splits Option.bind_splits)

lemma getViewValue_prepare:
  assumes "submit_prepare s = Some s4"
    and "name \<noteq> RESPONSE_BODY_VIEW" and "name \<noteq> RESPONSE_HEADERS_VIEW" and "name \<noteq> POPUP_VIEW"
  shows "getViewValue env s4 name = getViewValue env s name"
  using submit_prepare_views [OF assms] by (simp add: getViewValue_def)


section \<open>Facts about the task of a submit\<close>

lemma abort_frame:
  assumes "abort r rq msg s = Some s'"
  shows "history s' = history s" and "historyIndex s' = historyIndex s"
    and "sent s' = sent s" and "views s' = views s"
    and "updates s' = updates s @ [UFprintf RESPONSE_BODY_VIEW msg]"
    and "length (store s') = length (store s)"
  using assms by (auto simp: abort_def put_def enqueue_def)

lemma do_request_sent:
  assumes "do_request env r rq req s = Some s'"
  shows "sent s' = sent s @ [req]" and "views s' = views s"
    and "length (store s') = length (store s)"
  using assms
  by (auto simp: do_request_def abort_def put_def enqueue_def Let_def
           split: sum.splits option.splits if_splits)

lemma do_request_transport_error:
  assumes "do_request env r rq req s = Some s'" and "fst (CLIENT_Do env req) = Inl e"
  shows "history s' = history s" and "historyIndex s' = historyIndex s"
    and "updates s' = updates s @ [UFprintf RESPONSE_BODY_VIEW (''Response error: '' @ e)]"
  using assms
  by (auto simp: do_request_def abort_def put_def enqueue_def Let_def)

lemma do_request_history:
  assumes "do_request env r rq req s = Some s'"
  shows "(history s' = history s \<and> historyIndex s' = historyIndex s) \<or>
         (history s' = history s @ [r] \<and> historyIndex s' = int (length (history s)))"
  using assms
  by (auto simp: do_request_def abort_def put_def enqueue_def Let_def
           split: sum.splits option.splits if_splits)

text \<open>
  The task either returns before the request is made, and then nothing is sent and the
  history keeps its entries and its cursor, or it hands a request to \<open>do_request\<close>; the
  body of that request is the one computed from the headers and the data region.
\<close>

lemma make_request_cases:
  assumes "make_request env r rq3 u headers s = Some s'"
  shows "(sent s' = sent s \<and> history s' = history s \<and> historyIndex s' = historyIndex s
            \<and> views s' = views s \<and> length (store s') = length (store s)) \<or>
         (\<exists>rq req. do_request env r rq req s = Some s'
            \<and> reqMethod req = Method rq3 \<and> reqHeader req = headers
            \<and> (if carries_body (Method rq3)
                then request_body env headers (getViewValue env s REQUEST_DATA_VIEW)
                       = MPBody (the (reqBody req)) \<and> reqBody req \<noteq> None
                else reqBody req = None))"
proof (cases "if carries_body (Method rq3)
              then request_body env headers (getViewValue env s REQUEST_DATA_VIEW)
              else MPBody []")
  case MPQueryError
  then show ?thesis using assms by (auto simp: make_request_def put_def Let_def)
next
  case (MPOpenError e)
  then have "abort r (if carries_body (Method rq3)
                      then rq3\<lparr>Data := getViewValue env s REQUEST_DATA_VIEW\<rparr> else rq3)
               (''Error: '' @ e) s = Some s'"
    using assms by (simp add: make_request_def Let_def)
  then show ?thesis using abort_frame [of r _ _ s s'] by simp
next
  case MPWriteError
  then show ?thesis using assms by (auto simp: make_request_def put_def Let_def)
next
  case (MPBody b)
  define rq4 where "rq4 = (if carries_body (Method rq3)
                      then rq3\<lparr>Data := getViewValue env s REQUEST_DATA_VIEW\<rparr> else rq3)"
  define body where "body = (if carries_body (Method rq3) then Some b else None)"
  define target where "target = url_String env u (GetParams rq4)"
  have m: "Method rq4 = Method rq3" by (simp add: rq4_def)
  show ?thesis
  proof (cases "http_NewRequest env (Method rq4) target body")
    case (Some e)
    then have "abort r rq4 (''Request error: '' @ e) s = Some s'"
      using assms MPBody
      by (simp add: make_request_def Let_def rq4_def body_def target_def)
    then show ?thesis using abort_frame [of r _ _ s s'] by simp
  next
    case None
    define req where "req = \<lparr>reqMethod = Method rq4, reqURL = target, reqBody = body,
                  reqHeader = headers,
                  reqHost = (if Header_Get env headers ''Host'' \<noteq> []
                             then Some (Header_Get env headers ''Host'') else None)\<rparr>"
    have "do_request env r rq4 req s = Some s'"
      using assms MPBody None
      by (simp add: make_request_def Let_def rq4_def body_def target_def req_def)
    moreover have "reqMethod req = Method rq3" "reqHeader req = headers"
      by (simp_all add: req_def m)
    moreover have "if carries_body (Method rq3)
                then request_body env headers (getViewValue env s REQUEST_DATA_VIEW)
                       = MPBody (the (reqBody req)) \<and> reqBody req \<noteq> None
                else reqBody req = None"
      using MPBody by (simp add: req_def body_def split: if_splits)
    ultimately show ?thesis by blast
  qed
qed

lemma submit_task_cases:
  assumes "submit_task env r s = Some s'"
  shows "(sent s' = sent s \<and> history s' = history s \<and> historyIndex s' = historyIndex s
            \<and> views s' = views s \<and> length (store s') = length (store s)) \<or>
         (\<exists>rq req. do_request env r rq req s = Some s'
            \<and> reqMethod req = getViewValue env s REQUEST_METHOD_VIEW
            \<and> (if carries_body (reqMethod req)
                then request_body env (reqHeader req) (getViewValue env s REQUEST_DATA_VIEW)
                       = MPBody (the (reqBody req)) \<and> reqBody req \<noteq> None
                else reqBody req = None))"
proof (cases "url_Parse env (getViewValue env s URL_VIEW)")
  case (Inl e)
  then have "abort r (Request0\<lparr>Url := getViewValue env s URL_VIEW\<rparr>)
               (''URL parse error: '' @ e) s = Some s'"
    using assms by (simp add: submit_task_def Let_def)
  then show ?thesis using abort_frame [of r _ _ s s'] by simp
next
  case u: (Inr u)
  show ?thesis
  proof (cases "url_ParseQuery env (Replace1 (getViewValue env s URL_PARAMS_VIEW) nl CHR ''&'')")
    case (Inl e)
    then have "abort r (Request0\<lparr>Url := getViewValue env s URL_VIEW\<rparr>)
                 (''Invalid GET parameters: '' @ e) s = Some s'"
      using assms u by (simp add: submit_task_def Let_def)
    then show ?thesis using abort_frame [of r _ _ s s'] by simp
  next
    case q: (Inr q)
    define rq3 where "rq3 = Request0\<lparr>Url := getViewValue env s URL_VIEW,
        GetParams := query_Encode env u q, Method := getViewValue env s REQUEST_METHOD_VIEW,
        Headers := getViewValue env s REQUEST_HEADERS_VIEW\<rparr>"
    have m: "Method rq3 = getViewValue env s REQUEST_METHOD_VIEW"
      and h: "Headers rq3 = getViewValue env s REQUEST_HEADERS_VIEW"
      by (simp_all add: rq3_def)
    show ?thesis
    proof (cases "set_headers env (Split1 (getViewValue env s REQUEST_HEADERS_VIEW) nl)
                    (Header_Set env [] ''User-Agent'' [])")
      case (Inl l)
      then have "abort r rq3 (''Invalid header: '' @ l) s = Some s'"
        using assms u q by (simp add: submit_task_def Let_def rq3_def)
      then show ?thesis using abort_frame [of r _ _ s s'] by simp
    next
      case (Inr headers)
      then have "make_request env r rq3 u headers s = Some s'"
        using assms u q by (simp add: submit_task_def Let_def rq3_def)
      from make_request_cases [OF this] show ?thesis
        unfolding m by metis
    qed
  qed
qed



section \<open>Facts about the queue of callbacks\<close>

lemma flush_empty: "updates s = [] \<Longrightarrow> flush env s = Some s"
  by (subst flush.simps) simp

lemma flush_step:
  "updates s = u # us \<Longrightarrow> run_update env u (s\<lparr>updates := us\<rparr>) = Some s1
     \<Longrightarrow> flush env s = flush env s1"
  by (subst flush.simps) simp

lemma flush_message:
  assumes "updates s = [UFprintf RESPONSE_BODY_VIEW msg]"
    and "views s RESPONSE_BODY_VIEW = Some v"
  shows "flush env s =
           Some (s\<lparr>updates := [],
                   views := (views s)(RESPONSE_BODY_VIEW \<mapsto> v\<lparr>written := written v @ msg\<rparr>)\<rparr>)"
proof -
  let ?s1 = "s\<lparr>updates := [],
               views := (views s)(RESPONSE_BODY_VIEW \<mapsto> v\<lparr>written := written v @ msg\<rparr>)\<rparr>"
  have "run_update env (UFprintf RESPONSE_BODY_VIEW msg) (s\<lparr>updates := []\<rparr>) = Some ?s1"
    using assms(2) by (simp add: Fprint_def)
  then have "flush env s = flush env ?s1"
    using flush_step [OF assms(1)] by simp
  then show ?thesis by (simp add: flush_empty)
qed

section \<open>Facts about a whole submit\<close>

lemma SubmitRequest_parts:
  assumes "SubmitRequest env s = Some s'"
  obtains s4 s5 where "submit_prepare s = Some s4"
    and "submit_task env (length (store s)) s4 = Some s5"
    and "s' = DeleteView POPUP_VIEW s5"
  using assms by (auto simp: SubmitRequest_def split: Option.bind_splits)

lemma DeleteView_frame:
  "history (DeleteView n s) = history s" "historyIndex (DeleteView n s) = historyIndex s"
  "sent (DeleteView n s) = sent s" "updates (DeleteView n s) = updates s"
  "store (DeleteView n s) = store s"
  "m \<noteq> n \<Longrightarrow> views (DeleteView n s) m = views s m"
  by (simp_all add: DeleteView_def)

lemma body_not_popup: "RESPONSE_BODY_VIEW \<noteq> POPUP_VIEW"
  by (simp add: view_names)


text \<open>
  C4. When the submit hands a request to \<open>CLIENT.Do\<close> and \<open>CLIENT.Do\<close> returns an
  error, the history and its cursor are unchanged, and the response region holds the
  text \<open>Response error: \<close> followed by the error.
\<close>

theorem transport_failure_no_history:
  assumes "SubmitRequest env s = Some s'"
    and "sent s' = sent s @ [req]"
    and "fst (CLIENT_Do env req) = Inl e"
    and "updates s = []"
  shows "history s' = history s \<and> historyIndex s' = historyIndex s \<and>
         (\<exists>s''. flush env s' = Some s'' \<and>
            response_text s'' = Some (''Response error: '' @ e)
            \<and> history s'' = history s \<and> historyIndex s'' = historyIndex s)"
proof -
  from assms(1) obtain s4 s5 where s4: "submit_prepare s = Some s4"
    and s5: "submit_task env (length (store s)) s4 = Some s5"
    and s': "s' = DeleteView POPUP_VIEW s5"
    by (rule SubmitRequest_parts)
  have "sent s5 = sent s4 @ [req]"
    using assms(2) s' submit_prepare_frame(3) [OF s4] by (simp add: DeleteView_frame)
  then have "sent s5 \<noteq> sent s4" by simp
  then obtain rq req' where d: "do_request env (length (store s)) rq req' s4 = Some s5"
    using submit_task_cases [OF s5] by blast
  have "req' = req"
    using do_request_sent(1) [OF d] \<open>sent s5 = sent s4 @ [req]\<close> by simp
  then have d': "do_request env (length (store s)) rq req s4 = Some s5"
    using d by simp
  have h: "history s' = history s" "historyIndex s' = historyIndex s"
    using do_request_transport_error(1,2) [OF d' assms(3)] submit_prepare_frame(1,2) [OF s4] s'
    by (simp_all add: DeleteView_frame)
  obtain v where v: "views s4 RESPONSE_BODY_VIEW = Some v" and w: "written v = []"
    using submit_prepare_body [OF s4] by blast
  have q: "updates s' = [UFprintf RESPONSE_BODY_VIEW (''Response error: '' @ e)]"
    using do_request_transport_error(3) [OF d' assms(3)] submit_prepare_frame(4) [OF s4]
      assms(4) s'
    by (simp add: DeleteView_frame)
  have vb: "views s' RESPONSE_BODY_VIEW = Some v"
    using do_request_sent(2) [OF d'] v s' by (simp add: DeleteView_frame body_not_popup)
  show ?thesis
    using h w flush_message [OF q vb, of env]
    by (simp add: response_text_def field_text_def)
qed

text \<open>
  C5. When the submit hands a request with method POST, PUT or PATCH to \<open>CLIENT.Do\<close>: if
  the request's Content-Type header is \<open>application/x-www-form-urlencoded\<close>, its body is
  the text of the data region with every newline replaced by \<open>&\<close>; if the header is
  neither that nor \<open>multipart/form-data\<close>, its body is the text of the data region.
\<close>

theorem form_urlencoded_body:
  assumes "SubmitRequest env s = Some s'"
    and "sent s' = sent s @ [req]"
    and "reqMethod req = ''POST'' \<or> reqMethod req = ''PUT'' \<or> reqMethod req = ''PATCH''"
  shows "(Header_Get env (reqHeader req) ''Content-Type'' = ''application/x-www-form-urlencoded''
            \<longrightarrow> reqBody req =
                  Some (map (\<lambda>c. if c = nl then CHR ''&'' else c)
                          (getViewValue env s REQUEST_DATA_VIEW)))
       \<and> (Header_Get env (reqHeader req) ''Content-Type'' \<noteq> ''application/x-www-form-urlencoded''
            \<and> Header_Get env (reqHeader req) ''Content-Type'' \<noteq> ''multipart/form-data''
            \<longrightarrow> reqBody req = Some (getViewValue env s REQUEST_DATA_VIEW))"
proof -
  from assms(1) obtain s4 s5 where s4: "submit_prepare s = Some s4"
    and s5: "submit_task env (length (store s)) s4 = Some s5"
    and s': "s' = DeleteView POPUP_VIEW s5"
    by (rule SubmitRequest_parts)
  have snt: "sent s5 = sent s4 @ [req]"
    using assms(2) s' submit_prepare_frame(3) [OF s4] by (simp add: DeleteView_frame)
  then have "sent s5 \<noteq> sent s4" by simp
  then obtain rq req' where d: "do_request env (length (store s)) rq req' s4 = Some s5"
    and b: "if carries_body (reqMethod req')
            then request_body env (reqHeader req') (getViewValue env s4 REQUEST_DATA_VIEW)
                   = MPBody (the (reqBody req')) \<and> reqBody req' \<noteq> None
            else reqBody req' = None"
    using submit_task_cases [OF s5] by blast
  have eq: "req' = req"
    using do_request_sent(1) [OF d] snt by simp
  have dv: "getViewValue env s4 REQUEST_DATA_VIEW = getViewValue env s REQUEST_DATA_VIEW"
    by (rule getViewValue_prepare [OF s4]; simp add: view_names)
  have cb: "carries_body (reqMethod req)"
    using assms(3)
    by (auto simp: carries_body_def http_MethodPost_def http_MethodPut_def http_MethodPatch_def)
  have "request_body env (reqHeader req) (getViewValue env s REQUEST_DATA_VIEW)
          = MPBody (the (reqBody req))" and "reqBody req \<noteq> None"
    using b cb unfolding eq dv by simp_all
  then show ?thesis
    by (auto simp: request_body_def Replace1_def split: if_splits)
qed


lemmas sample_defs =
  sample_state_def initial_def view0_def env0_def view_names getViewValue_def

lemma sample_submit_unfold:
  "SubmitRequest env (sample_state url params method data headers) =
     map_option (DeleteView POPUP_VIEW)
       (submit_task env 0
          ((popup ''Sending request..''
             (sample_state url params method data headers
                \<lparr>views := (views (sample_state url params method data headers))
                   (RESPONSE_BODY_VIEW \<mapsto> view0 [], RESPONSE_HEADERS_VIEW \<mapsto> view0 [])\<rparr>))
           \<lparr>store := [Request0]\<rparr>))"
  by (simp add: SubmitRequest_def submit_prepare_def View_Clear_def popup_def
        sample_state_def initial_def view0_def view_names Let_def map_option_case
      split: option.splits)


lemma sample_views:
  "views (sample_state url params method data headers) RESPONSE_BODY_VIEW = Some (view0 ''old body'')"
  "views (sample_state url params method data headers) RESPONSE_HEADERS_VIEW
     = Some (view0 ''old headers'')"
  "updates (sample_state url params method data headers) = []"
  "sent (sample_state url params method data headers) = []"
  "history (sample_state url params method data headers) = []"
  "historyIndex (sample_state url params method data headers) = 0"
  by (simp_all add: sample_state_def initial_def view_names)

lemma sample_values:
  "getViewValue env0 (sample_state url params method data headers) URL_VIEW = url"
  "getViewValue env0 (sample_state url params method data headers) URL_PARAMS_VIEW = params"
  "getViewValue env0 (sample_state url params method data headers) REQUEST_METHOD_VIEW = method"
  "getViewValue env0 (sample_state url params method data headers) REQUEST_DATA_VIEW = data"
  "getViewValue env0 (sample_state url params method data headers) REQUEST_HEADERS_VIEW = headers"
  by (simp_all add: sample_defs)



theorem transport_failure_no_history_witness:
  "\<exists>s' req. SubmitRequest env0 (sample_state ''http://down.example/'' [] ''GET'' [] []) = Some s'
      \<and> sent s' = [req]
      \<and> fst (CLIENT_Do env0 req) = Inl ''connection refused''
      \<and> history s' = [] \<and> historyIndex s' = 0
      \<and> Option.bind (flush env0 s') response_text = Some ''Response error: connection refused''"
proof -
  let ?s = "sample_state ''http://down.example/'' [] ''GET'' [] []"
  let ?req = "\<lparr>reqMethod = ''GET'', reqURL = ''http://down.example/'', reqBody = None,
     reqHeader = [(''User-Agent'', [[]])], reqHost = None\<rparr>"
  have "\<exists>s'. SubmitRequest env0 ?s = Some s' \<and> sent s' = [?req]"
    by (subst sample_submit_unfold) (simp add: submit_task_def make_request_def do_request_def
          abort_def put_def enqueue_def carries_body_def http_MethodPost_def http_MethodPut_def
          http_MethodPatch_def Header_Set_def Header_Get_def Request0_def Replace1_def
          DeleteView_def popup_def Let_def sample_defs nl_def)
  then obtain s' where s': "SubmitRequest env0 ?s = Some s'" and snt: "sent s' = sent ?s @ [?req]"
    by (auto simp: sample_views)
  have e: "fst (CLIENT_Do env0 ?req) = Inl ''connection refused''"
    by (simp add: env0_def)
  from transport_failure_no_history [OF s' snt e sample_views(3)] s' snt e show ?thesis
    by (auto simp: sample_views)
qed

theorem form_urlencoded_body_witness:
  "\<exists>s' req. SubmitRequest env0
       (sample_state ''http://example.com/'' [] ''POST'' ''a=1\<newline>b=2''
          ''Content-Type: application/x-www-form-urlencoded'') = Some s'
      \<and> sent s' = [req] \<and> reqMethod req = ''POST''
      \<and> Header_Get env0 (reqHeader req) ''Content-Type'' = ''application/x-www-form-urlencoded''
      \<and> reqBody req = Some ''a=1&b=2''"
proof -
  let ?s = "sample_state ''http://example.com/'' [] ''POST'' ''a=1\<newline>b=2''
          ''Content-Type: application/x-www-form-urlencoded''"
  have "\<exists>s' req. SubmitRequest env0 ?s = Some s' \<and> sent s' = [req] \<and> reqMethod req = ''POST''
          \<and> Header_Get env0 (reqHeader req) ''Content-Type'' = ''application/x-www-form-urlencoded''"
    by (subst sample_submit_unfold) (simp add: submit_task_def make_request_def do_request_def
          request_body_def Replace1_def SplitN2_def Request0_def
          abort_def put_def enqueue_def carries_body_def http_MethodPost_def http_MethodPut_def
          http_MethodPatch_def Header_Set_def Header_Get_def response0_def
          DeleteView_def popup_def Let_def sample_defs nl_def)
  then obtain s' req where s': "SubmitRequest env0 ?s = Some s'"
    and snt: "sent s' = sent ?s @ [req]" and m: "reqMethod req = ''POST''"
    and ct: "Header_Get env0 (reqHeader req) ''Content-Type'' = ''application/x-www-form-urlencoded''"
    by (auto simp: sample_views)
  from form_urlencoded_body [OF s' snt] m ct s' snt show ?thesis
    by (auto simp: sample_views sample_values nl_def)
qed


section \<open>Properties of the autocomplete layer\<close>

lemma DecodeRune_ascii:
  "(of_char c :: nat) < 0x80 \<Longrightarrow> DecodeRune (c # cs) = (of_char c, 1)"
  by (simp add: Let_def)

lemma runes_ascii:
  "\<forall>c \<in> set s. (of_char c :: nat) < 0x80 \<Longrightarrow> runes s = map of_char s"
  by (induction s) (simp_all add: DecodeRune_ascii del: DecodeRune.simps)

lemma is_symbol_char_ascii: "is_symbol_char c \<Longrightarrow> (of_char c :: nat) < 0x80"
  by (auto simp: is_symbol_char_def less_eq_char_def)

lemma getLastSymbol_ascii: "\<forall>c \<in> set (getLastSymbol str). (of_char c :: nat) < 0x80"
  by (auto simp: getLastSymbol_def dest!: set_takeWhileD intro: is_symbol_char_ascii)

lemma length_runes_getLastSymbol:
  "length (runes (getLastSymbol str)) = length (getLastSymbol str)"
  by (simp add: runes_ascii [OF getLastSymbol_ascii])

text \<open>
  What a call of \<open>Edit\<close> that reads the line and leaves a suggestion showing has stored:
  the candidates of the token, or for a single candidate its part after the token.
\<close>

lemma suggestion_stored:
  assumes "AutocompleteEditor_Edit completions e0 key ch modifier ob = Some (fx, e)"
    and "\<not> o_err ob" and "isAutocompleting e"
  shows "completions (getLastSymbol (take (nat (o_cx ob)) (o_line ob))) \<noteq> [] \<and>
         currentCompletions e =
           (case completions (getLastSymbol (take (nat (o_cx ob)) (o_line ob))) of
              [c] \<Rightarrow> [drop (length (getLastSymbol (take (nat (o_cx ob)) (o_line ob)))) c]
            | cs \<Rightarrow> cs)"
  using assms
  by (auto simp: AutocompleteEditor_Edit_def Let_def
           split: if_splits prod.splits list.splits)

text \<open>
  C7. Let a call of \<open>Edit\<close> have read the line and left a suggestion showing for the
  token before the cursor. When Enter is pressed next and the line is read again: with
  exactly one candidate at suggestion time, only the runes of the candidate after the
  token are written and nothing is deleted; otherwise \<open>EditDelete(true)\<close> is called once
  per character of the token now before the cursor, and then the runes of the first
  candidate are written in full. The suggestion is closed in both cases.
\<close>

theorem autocomplete_enter:
  assumes "AutocompleteEditor_Edit completions e0 key ch modifier ob = Some (fx, e)"
    and "\<not> o_err ob" and "isAutocompleting e"
    and "\<not> o_err ob'" and "0 \<le> o_cx ob'" and "o_cx ob' \<le> int (length (o_line ob'))"
  shows "AutocompleteEditor_Edit completions e KeyEnter ch' modifier' ob' =
           Some ((case completions (getLastSymbol (take (nat (o_cx ob)) (o_line ob))) of
                    [c] \<Rightarrow>
                      map EditWrite
                        (runes (drop (length (getLastSymbol (take (nat (o_cx ob)) (o_line ob)))) c))
                  | cs \<Rightarrow>
                      replicate (length (getLastSymbol (take (nat (o_cx ob')) (o_line ob'))))
                        (EditDelete True) @
                      map EditWrite (runes (hd cs)))
                 @ [CloseAutocomplete],
                 e\<lparr>isAutocompleting := False\<rparr>)"
proof -
  let ?tok = "getLastSymbol (take (nat (o_cx ob)) (o_line ob))"
  let ?tok' = "getLastSymbol (take (nat (o_cx ob')) (o_line ob'))"
  have ne: "completions ?tok \<noteq> []"
    and cur: "currentCompletions e = (case completions ?tok of [c] \<Rightarrow> [drop (length ?tok) c] | cs \<Rightarrow> cs)"
    using suggestion_stored [OF assms(1,2,3)] by simp_all
  have del: "map (\<lambda>_. EditDelete True) (runes ?tok') = replicate (length ?tok') (EditDelete True)"
    by (simp add: map_replicate_const length_runes_getLastSymbol)
  show ?thesis
  proof (cases "completions ?tok")
    case Nil
    then show ?thesis using ne by simp
  next
    case (Cons c cs)
    show ?thesis
    proof (cases cs)
      case Nil
      then have "currentCompletions e = [drop (length ?tok) c]"
        using cur Cons by simp
      then show ?thesis using assms(3-6) Cons Nil
        by (simp add: AutocompleteEditor_Edit_def Let_def)
    next
      case (Cons d ds)
      then have "currentCompletions e = c # d # ds"
        using cur \<open>completions ?tok = c # cs\<close> by simp
      then show ?thesis using assms(3-6) Cons \<open>completions ?tok = c # cs\<close> del
        by (simp add: AutocompleteEditor_Edit_def Let_def)
    qed
  qed
qed

theorem autocomplete_enter_witness:
  "AutocompleteEditor_Edit (\<lambda>s. completeFromSlice s [''Accept'', ''Accept-Encoding'', ''Host''])
     \<lparr>backTabEscape = False, currentCompletions = [''ost''], isAutocompleting = True\<rparr>
     KeyEnter 0 ModNone
     \<lparr>o_down1 = False, o_cx = 1, o_line = ''H'', o_err = False, o_down2 = False,
      o_cx2 = 1, o_cy2 = 0, o_sx = 30, o_ox = 0, o_oy = 10\<rparr>
   = Some ([EditWrite 0x6F, EditWrite 0x73, EditWrite 0x74, CloseAutocomplete],
           \<lparr>backTabEscape = False, currentCompletions = [''ost''], isAutocompleting = False\<rparr>)
   \<and> AutocompleteEditor_Edit (\<lambda>s. completeFromSlice s [''Accept'', ''Accept-Encoding'', ''Host''])
     \<lparr>backTabEscape = False, currentCompletions = [''Accept'', ''Accept-Encoding''],
      isAutocompleting = True\<rparr>
     KeyEnter 0 ModNone
     \<lparr>o_down1 = False, o_cx = 2, o_line = ''Ac'', o_err = False, o_down2 = False,
      o_cx2 = 2, o_cy2 = 0, o_sx = 30, o_ox = 0, o_oy = 10\<rparr>
   = Some ([EditDelete True, EditDelete True, EditWrite 0x41, EditWrite 0x63, EditWrite 0x63,
            EditWrite 0x65, EditWrite 0x70, EditWrite 0x74, CloseAutocomplete],
           \<lparr>backTabEscape = False, currentCompletions = [''Accept'', ''Accept-Encoding''],
            isAutocompleting = False\<rparr>)"
proof -
  let ?comp = "\<lambda>s. completeFromSlice s [''Accept'', ''Accept-Encoding'', ''Host'']"
  let ?e0 = "\<lparr>backTabEscape = False, currentCompletions = [], isAutocompleting = False\<rparr>"
  let ?ob1 = "\<lparr>o_down1 = False, o_cx = 1, o_line = ''H'', o_err = False, o_down2 = False,
      o_cx2 = 1, o_cy2 = 0, o_sx = 30, o_ox = 0, o_oy = 10\<rparr>"
  let ?ob2 = "\<lparr>o_down1 = False, o_cx = 2, o_line = ''Ac'', o_err = False, o_down2 = False,
      o_cx2 = 2, o_cy2 = 0, o_sx = 30, o_ox = 0, o_oy = 10\<rparr>"
  let ?e1 = "\<lparr>backTabEscape = False, currentCompletions = [''ost''], isAutocompleting = True\<rparr>"
  let ?e2 = "\<lparr>backTabEscape = False, currentCompletions = [''Accept'', ''Accept-Encoding''],
      isAutocompleting = True\<rparr>"
  have sym: "getLastSymbol ''H'' = ''H''" "getLastSymbol ''Ac'' = ''Ac''"
    by (simp_all add: getLastSymbol_def is_symbol_char_def less_eq_char_def)
  have c1: "?comp ''H'' = [''Host'']" and c2: "?comp ''Ac'' = [''Accept'', ''Accept-Encoding'']"
    by (simp_all add: completeFromSlice_def TrimRight_def HasPrefix_def nl_def)
  have s1: "AutocompleteEditor_Edit ?comp ?e0 Key0 0x48 ModNone ?ob1
              = Some ([OrigEdit Key0 0x48 ModNone, CloseAutocomplete,
                       ShowAutocomplete [''ost''] 1 10 29 10], ?e1)"
    by (simp add: AutocompleteEditor_Edit_def ViewEditor_Edit_def rune_Z_def rune_lbracket_def
          Let_def sym c1)
  have s2: "AutocompleteEditor_Edit ?comp ?e0 Key0 0x63 ModNone ?ob2
              = Some ([OrigEdit Key0 0x63 ModNone, CloseAutocomplete,
                       ShowAutocomplete [''Accept'', ''Accept-Encoding''] 0 11 30 10], ?e2)"
    by (simp add: AutocompleteEditor_Edit_def ViewEditor_Edit_def rune_Z_def rune_lbracket_def
          Let_def sym c2)
  have r1: "runes ''ost'' = [0x6F, 0x73, 0x74]"
    and r2: "runes ''Accept'' = [0x41, 0x63, 0x63, 0x65, 0x70, 0x74]"
    by (simp_all add: Let_def)
  show ?thesis
    using autocomplete_enter [OF s1, of ?ob1 0 ModNone]
      autocomplete_enter [OF s2, of ?ob2 0 ModNone]
    by (simp add: sym c1 c2 r1 r2)
qed


section \<open>Properties of saving and loading\<close>

lemma flush_single:
  assumes "updates s = [u]" and "run_update env u (s\<lparr>updates := []\<rparr>) = Some s1"
    and "updates s1 = []"
  shows "flush env s = Some s1"
  using flush_step [OF assms(1,2)] flush_empty [OF assms(3)] by simp




section \<open>Facts about the regions and the body of \<open>PrintBody\<close>\<close>

lemma setViewTextAndCursor_frame:
  assumes "setViewTextAndCursor name str s = Some s'"
  shows "history s' = history s" and "historyIndex s' = historyIndex s"
    and "store s' = store s" and "sent s' = sent s" and "updates s' = updates s"
    and "field_text s' name = Some str"
    and "\<And>m. m \<noteq> name \<Longrightarrow> views s' m = views s m"
  using assms
  by (auto simp: setViewTextAndCursor_def field_text_def SetCursor_def split: option.splits)

lemma setViewTextAndCursor_Some:
  "views s name \<noteq> None \<Longrightarrow> \<exists>s'. setViewTextAndCursor name str s = Some s'"
  by (auto simp: setViewTextAndCursor_def)

lemma closePopup_frame:
  assumes "closePopup name s = Some s'"
  shows "history s' = history s" and "historyIndex s' = historyIndex s"
    and "store s' = store s" and "sent s' = sent s" and "updates s' = updates s"
    and "\<And>m. m \<noteq> name \<Longrightarrow> views s' m = views s m"
  using assms
  by (auto simp: closePopup_def DeleteView_def SetCurrentView_def
           split: option.splits Option.bind_splits)

lemma closePopup_Some:
  "focus_ok s \<Longrightarrow> \<exists>s'. closePopup name s = Some s'"
  by (auto simp: closePopup_def focus_ok_def VIEWS_at_def go_rem_def VIEWS_def
           split: option.splits)

lemma PrintBody_update_frame:
  assumes "PrintBody_update env s = Some s'"
  shows "history s' = history s" and "historyIndex s' = historyIndex s"
    and "store s' = store s" and "sent s' = sent s" and "updates s' = updates s"
    and "\<And>m. m \<noteq> RESPONSE_BODY_VIEW \<Longrightarrow> views s' m = views s m"
  using assms
  by (auto simp: PrintBody_update_def Fprint_def View_Clear_def SetTitle_def Let_def
           split: option.splits Option.bind_splits if_splits sum.splits prod.splits)

lemma PrintBody_update_no_body:
  assumes "history_at s (historyIndex s) = Some p" and "deref s p = Some req"
    and "RawResponseBody req = None"
  shows "PrintBody_update env s = Some s"
  using assms by (simp add: PrintBody_update_def)

lemma PrintBody_update_renders:
  assumes "history s \<noteq> []" and "history_at s (historyIndex s) = Some p"
    and "deref s p = Some req" and "RawResponseBody req = Some raw"
    and "Formatter req = Some fm" and "views s RESPONSE_BODY_VIEW \<noteq> None"
  shows "\<exists>s'. PrintBody_update env s = Some s' \<and>
           response_text s' = Some (render_body env (getViewValue env s SEARCH_VIEW) fm raw)"
proof -
  from assms(6) obtain v where v: "views s RESPONSE_BODY_VIEW = Some v" by auto
  have g: "getViewValue env
             (s\<lparr>views := (views s)(RESPONSE_BODY_VIEW \<mapsto> v\<lparr>written := [], title := t\<rparr>)\<rparr>)
             SEARCH_VIEW = getViewValue env s SEARCH_VIEW" for t
    by (simp add: getViewValue_def view_names)
  show ?thesis
    using assms(1-5) v
    by (auto simp: PrintBody_update_def View_Clear_def SetTitle_def Fprint_def g
          render_body_def response_text_def field_text_def Let_def
        split: prod.splits option.splits sum.splits)
qed


section \<open>Properties of the recall\<close>

lemma regions_existD:
  assumes "regions_exist s"
  shows "views s URL_VIEW \<noteq> None" "views s URL_PARAMS_VIEW \<noteq> None"
    "views s REQUEST_METHOD_VIEW \<noteq> None" "views s REQUEST_DATA_VIEW \<noteq> None"
    "views s REQUEST_HEADERS_VIEW \<noteq> None" "views s SEARCH_VIEW \<noteq> None"
    "views s RESPONSE_HEADERS_VIEW \<noteq> None" "views s RESPONSE_BODY_VIEW \<noteq> None"
  using assms by (simp_all add: regions_exist_def VIEWS_def)

text \<open>
  C8. A recall with an index out of range returns the state as it is. A recall with an
  index in range, in a state whose regions exist, whose entries point at requests with a
  formatter and whose queue is empty, makes the index the cursor of the history and gives
  the six regions the texts of the stored request; the history, the store and the list of
  requests sent stay as they are; and once the queued body of \<open>PrintBody\<close> has run, the
  response region holds the rendering of the stored raw body (and is left alone when the
  entry has no raw body).
\<close>

theorem restoreRequest_spec:
  "(idx < 0 \<or> int (length (history s)) \<le> idx \<longrightarrow> restoreRequest idx s = Some s)
   \<and> (0 \<le> idx \<and> idx < int (length (history s))
        \<and> regions_exist s \<and> focus_ok s \<and> entries_ok s \<and> updates s = []
      \<longrightarrow> (\<exists>s' s'' r. restoreRequest idx s = Some s' \<and> flush env s' = Some s''
             \<and> r = store s ! (history s ! nat idx)
             \<and> historyIndex s' = idx \<and> historyIndex s'' = idx
             \<and> history s'' = history s \<and> store s'' = store s \<and> sent s'' = sent s
             \<and> field_text s'' URL_VIEW = Some (Url r)
             \<and> field_text s'' REQUEST_METHOD_VIEW = Some (Method r)
             \<and> field_text s'' URL_PARAMS_VIEW = Some (GetParams r)
             \<and> field_text s'' REQUEST_DATA_VIEW = Some (Data r)
             \<and> field_text s'' REQUEST_HEADERS_VIEW = Some (Headers r)
             \<and> field_text s'' RESPONSE_HEADERS_VIEW = Some (ResponseHeaders r)
             \<and> response_text s'' =
                 (case RawResponseBody r of
                    None \<Rightarrow> response_text s
                  | Some raw \<Rightarrow>
                      Some (render_body env (getViewValue env s SEARCH_VIEW)
                              (the (Formatter r)) raw))))"
proof (intro conjI impI)
  assume "idx < 0 \<or> int (length (history s)) \<le> idx"
  then show "restoreRequest idx s = Some s"
    by (auto simp: restoreRequest_def)
next
  assume a: "0 \<le> idx \<and> idx < int (length (history s))
        \<and> regions_exist s \<and> focus_ok s \<and> entries_ok s \<and> updates s = []"
  define p where "p = history s ! nat idx"
  define r where "r = store s ! p"
  have "nat idx < length (history s)"
    using a by auto
  then have pin: "p \<in> set (history s)"
    unfolding p_def by (rule nth_mem)
  then have pv: "p < length (store s)" and fm: "Formatter r \<noteq> None"
    using a by (auto simp: entries_ok_def list_all_iff r_def)
  note ex = regions_existD [of s]
  obtain s1 where s1: "closePopup HISTORY_VIEW s = Some s1"
    using closePopup_Some a by blast
  note f1 = closePopup_frame [OF s1]
  have keep1: "views s1 m = views s m" if "m \<in> set VIEWS" for m
    using that by (intro f1(6)) (auto simp: VIEWS_def view_names)
  obtain v1 v2 v3 v4 v5 v6 where v:
    "views s1 URL_VIEW = Some v1" "views s1 REQUEST_METHOD_VIEW = Some v2"
    "views s1 URL_PARAMS_VIEW = Some v3" "views s1 REQUEST_DATA_VIEW = Some v4"
    "views s1 REQUEST_HEADERS_VIEW = Some v5" "views s1 RESPONSE_HEADERS_VIEW = Some v6"
    using ex a keep1 by (auto simp: VIEWS_def)
  define s' where "s' = s1\<lparr>historyIndex := idx, views := (views s1)
      (URL_VIEW \<mapsto> SetCursor (int (length (Url r))) 0 (v1\<lparr>written := Url r\<rparr>),
       REQUEST_METHOD_VIEW \<mapsto> SetCursor (int (length (Method r))) 0 (v2\<lparr>written := Method r\<rparr>),
       URL_PARAMS_VIEW \<mapsto> SetCursor (int (length (GetParams r))) 0 (v3\<lparr>written := GetParams r\<rparr>),
       REQUEST_DATA_VIEW \<mapsto> SetCursor (int (length (Data r))) 0 (v4\<lparr>written := Data r\<rparr>),
       REQUEST_HEADERS_VIEW \<mapsto> SetCursor (int (length (Headers r))) 0 (v5\<lparr>written := Headers r\<rparr>),
       RESPONSE_HEADERS_VIEW \<mapsto>
         SetCursor (int (length (ResponseHeaders r))) 0 (v6\<lparr>written := ResponseHeaders r\<rparr>)),
      updates := [UPrintBody]\<rparr>"
  have w: "written (SetCursor x y u) = written u" for x y u
    by (simp add: SetCursor_def)
  have hat: "history_at (s1\<lparr>historyIndex := idx\<rparr>) idx = Some p"
    using a f1(1) by (simp add: history_at_def p_def)
  have der: "deref (s1\<lparr>historyIndex := idx\<rparr>) p = Some r"
    using pv f1(3) by (simp add: deref_def r_def)
  have rest: "restoreRequest idx s = Some s'"
    using a s1 hat der v f1(5) unfolding s'_def
    by (simp add: restoreRequest_def setViewTextAndCursor_def PrintBody_def enqueue_def
          view_names)
  let ?t = "s'\<lparr>updates := []\<rparr>"
  have hat': "history_at ?t (historyIndex ?t) = Some p"
    using a f1(1) by (simp add: history_at_def p_def s'_def)
  have der': "deref ?t p = Some r"
    using pv f1(3) by (simp add: deref_def r_def s'_def)
  have body: "views ?t RESPONSE_BODY_VIEW = views s RESPONSE_BODY_VIEW"
    using keep1 [of RESPONSE_BODY_VIEW] by (simp add: s'_def view_names VIEWS_def)
  have srch: "getViewValue env ?t SEARCH_VIEW = getViewValue env s SEARCH_VIEW"
    using keep1 [of SEARCH_VIEW] by (simp add: getViewValue_def s'_def view_names VIEWS_def)
  have "\<exists>s''. PrintBody_update env ?t = Some s'' \<and>
          response_text s'' =
            (case RawResponseBody r of
               None \<Rightarrow> response_text s
             | Some raw \<Rightarrow>
                 Some (render_body env (getViewValue env s SEARCH_VIEW) (the (Formatter r)) raw))"
  proof (cases "RawResponseBody r")
    case None
    then show ?thesis
      using PrintBody_update_no_body [OF hat' der' None, of env] body
      by (intro exI [of _ ?t]) (simp add: response_text_def field_text_def)
  next
    case (Some raw)
    from fm obtain f where f: "Formatter r = Some f" by auto
    have "history ?t \<noteq> []" using a f1(1) by (auto simp: s'_def)
    moreover have "views ?t RESPONSE_BODY_VIEW \<noteq> None" using body ex(8) a by simp
    ultimately show ?thesis
      using PrintBody_update_renders [OF _ hat' der' Some f, of env] Some f srch by simp
  qed
  then obtain s'' where pb: "PrintBody_update env ?t = Some s''"
    and rt: "response_text s'' =
            (case RawResponseBody r of
               None \<Rightarrow> response_text s
             | Some raw \<Rightarrow>
                 Some (render_body env (getViewValue env s SEARCH_VIEW) (the (Formatter r)) raw))"
    by blast
  note f2 = PrintBody_update_frame [OF pb]
  have fl: "flush env s' = Some s''"
  proof (rule flush_single)
    show "updates s' = [UPrintBody]" by (simp add: s'_def)
    show "run_update env UPrintBody (s'\<lparr>updates := []\<rparr>) = Some s''" using pb by simp
    show "updates s'' = []" using f2(5) by simp
  qed
  have same: "field_text s'' m = field_text s' m" if "m \<noteq> RESPONSE_BODY_VIEW" for m
    using f2(6) [OF that] by (simp add: field_text_def)
  have fields: "field_text s'' URL_VIEW = Some (Url r)"
    "field_text s'' REQUEST_METHOD_VIEW = Some (Method r)"
    "field_text s'' URL_PARAMS_VIEW = Some (GetParams r)"
    "field_text s'' REQUEST_DATA_VIEW = Some (Data r)"
    "field_text s'' REQUEST_HEADERS_VIEW = Some (Headers r)"
    "field_text s'' RESPONSE_HEADERS_VIEW = Some (ResponseHeaders r)"
    by (subst same; simp add: view_names field_text_def s'_def w)+
  have frame: "historyIndex s' = idx" "historyIndex s'' = idx" "history s'' = history s"
    "store s'' = store s" "sent s'' = sent s"
    using f2(1-4) f1(1,3,4) by (simp_all add: s'_def)
  show "\<exists>s' s'' r. restoreRequest idx s = Some s' \<and> flush env s' = Some s''
             \<and> r = store s ! (history s ! nat idx)
             \<and> historyIndex s' = idx \<and> historyIndex s'' = idx
             \<and> history s'' = history s \<and> store s'' = store s \<and> sent s'' = sent s
             \<and> field_text s'' URL_VIEW = Some (Url r)
             \<and> field_text s'' REQUEST_METHOD_VIEW = Some (Method r)
             \<and> field_text s'' URL_PARAMS_VIEW = Some (GetParams r)
             \<and> field_text s'' REQUEST_DATA_VIEW = Some (Data r)
             \<and> field_text s'' REQUEST_HEADERS_VIEW = Some (Headers r)
             \<and> field_text s'' RESPONSE_HEADERS_VIEW = Some (ResponseHeaders r)
             \<and> response_text s'' =
                 (case RawResponseBody r of
                    None \<Rightarrow> response_text s
                  | Some raw \<Rightarrow>
                      Some (render_body env (getViewValue env s SEARCH_VIEW)
                              (the (Formatter r)) raw))"
    using rest fl fields frame rt unfolding r_def p_def by blast
qed


theorem restoreRequest_spec_witness:
  "restoreRequest 2 two_requests = Some two_requests
   \<and> restoreRequest (- 1) two_requests = Some two_requests
   \<and> (\<exists>s' s''. restoreRequest 0 two_requests = Some s' \<and> flush env0 s' = Some s''
         \<and> historyIndex s'' = 0 \<and> history s'' = [0, 1] \<and> sent s'' = []
         \<and> field_text s'' URL_VIEW = Some ''http://example.com/''
         \<and> field_text s'' REQUEST_METHOD_VIEW = Some ''POST''
         \<and> field_text s'' URL_PARAMS_VIEW = Some ''a=1''
         \<and> field_text s'' REQUEST_DATA_VIEW = Some ''x=y''
         \<and> field_text s'' REQUEST_HEADERS_VIEW = Some ''Accept: text/plain''
         \<and> field_text s'' RESPONSE_HEADERS_VIEW = Some ''HTTP/1.1 200 OK''
         \<and> response_text s'' = Some ''first'')"
proof -
  have h: "history two_requests = [0, 1]" "store two_requests = [entryA, entryB]"
    "sent two_requests = []" "updates two_requests = []"
    by (simp_all add: two_requests_def sample_state_def initial_def)
  have ok: "regions_exist two_requests" "focus_ok two_requests" "entries_ok two_requests"
    by (simp_all add: regions_exist_def focus_ok_def entries_ok_def two_requests_def
          sample_state_def initial_def VIEWS_def view_names entryA_def entryB_def)
  have sv: "getViewValue env0 two_requests SEARCH_VIEW = []"
    by (simp add: getViewValue_def two_requests_def sample_state_def initial_def view_names
          view0_def env0_def)
  have rb: "render_body env0 [] text_formatter ''first'' = ''first''"
    by (simp add: render_body_def text_formatter_def)
  show ?thesis
    using restoreRequest_spec [of 2 two_requests env0]
      restoreRequest_spec [of "- 1" two_requests env0]
      restoreRequest_spec [of 0 two_requests env0] ok
    by (simp add: h sv rb entryA_def request0_def Request0_def) blast
qed

section \<open>Properties of the history\<close>

lemma SubmitRequest_history:
  assumes "SubmitRequest env s = Some s'"
  shows "(history s' = history s \<and> historyIndex s' = historyIndex s) \<or>
         (history s' = history s @ [length (store s)]
            \<and> historyIndex s' = int (length (history s)))"
proof -
  from assms obtain s4 s5 where s4: "submit_prepare s = Some s4"
    and s5: "submit_task env (length (store s)) s4 = Some s5"
    and s': "s' = DeleteView POPUP_VIEW s5"
    by (rule SubmitRequest_parts)
  note f = submit_prepare_frame [OF s4]
  from submit_task_cases [OF s5] show ?thesis
  proof
    assume "sent s5 = sent s4 \<and> history s5 = history s4 \<and> historyIndex s5 = historyIndex s4
              \<and> views s5 = views s4 \<and> length (store s5) = length (store s4)"
    then show ?thesis using f s' by (simp add: DeleteView_frame)
  next
    assume "\<exists>rq req. do_request env (length (store s)) rq req s4 = Some s5
            \<and> reqMethod req = getViewValue env s4 REQUEST_METHOD_VIEW
            \<and> (if carries_body (reqMethod req)
                then request_body env (reqHeader req) (getViewValue env s4 REQUEST_DATA_VIEW)
                       = MPBody (the (reqBody req)) \<and> reqBody req \<noteq> None
                else reqBody req = None)"
    then obtain rq req where "do_request env (length (store s)) rq req s4 = Some s5"
      by blast
    from do_request_history [OF this] show ?thesis
      using f s' by (simp add: DeleteView_frame)
  qed
qed

lemma restoreRequest_history:
  assumes "restoreRequest idx s = Some s'"
  shows "history s' = history s \<and>
         (historyIndex s' = historyIndex s \<or>
          (0 \<le> idx \<and> idx < int (length (history s)) \<and> historyIndex s' = idx))"
proof (cases "idx < 0 \<or> int (length (history s)) \<le> idx")
  case True
  then show ?thesis using assms by (simp add: restoreRequest_def)
next
  case False
  then show ?thesis using assms
    by (auto simp: restoreRequest_def Let_def PrintBody_def enqueue_def
          setViewTextAndCursor_frame closePopup_frame split: Option.bind_splits)
qed

lemma load_field_history:
  assumes "load_field requestMap name s = Some s'"
  shows "history s' = history s" and "historyIndex s' = historyIndex s"
  using assms
  by (auto simp: load_field_def setViewTextAndCursor_frame split: option.splits)

lemma LoadRequest_history:
  assumes "LoadRequest env loadLocation s = Some s'"
  shows "history s' = history s \<and> historyIndex s' = historyIndex s"
proof (cases "os_ReadFile env loadLocation")
  case (Inl e)
  then show ?thesis using assms by (auto simp: LoadRequest_def enqueue_def)
next
  case f: (Inr requestJson)
  show ?thesis
  proof (cases "json_Unmarshal env requestJson")
    case (Inl e)
    then show ?thesis using assms f by (auto simp: LoadRequest_def enqueue_def)
  next
    case (Inr requestMap)
    then obtain s1 s2 s3 where 1: "load_field requestMap URL_VIEW s = Some s1"
      and 2: "load_field requestMap REQUEST_METHOD_VIEW s1 = Some s2"
      and 3: "load_field requestMap URL_PARAMS_VIEW s2 = Some s3"
      and 4: "load_field requestMap REQUEST_HEADERS_VIEW
            (case requestMap REQUEST_DATA_VIEW of None \<Rightarrow> s3
             | Some data \<Rightarrow> enqueue (UClearFprintf REQUEST_DATA_VIEW data) s3) = Some s'"
      using assms f
      by (auto simp: LoadRequest_def Let_def split: Option.bind_splits)
    have "history s3 = history s \<and> historyIndex s3 = historyIndex s"
      using load_field_history [OF 1] load_field_history [OF 2] load_field_history [OF 3]
      by simp
    moreover have "history s' = history s3 \<and> historyIndex s' = historyIndex s3"
      using load_field_history [OF 4] by (simp add: enqueue_def split: option.splits)
    ultimately show ?thesis by simp
  qed
qed

lemma run_update_history:
  assumes "run_update env u s = Some s'"
  shows "history s' = history s \<and> historyIndex s' = historyIndex s"
proof (cases u)
  case (UFprintf name msg)
  then show ?thesis using assms by (auto simp: Fprint_def split: option.splits)
next
  case (UClearFprintf name msg)
  then show ?thesis using assms
    by (auto simp: Fprint_def View_Clear_def split: option.splits Option.bind_splits)
next
  case UPrintBody
  then show ?thesis using assms PrintBody_update_frame(1,2) [of env s s'] by simp
next
  case (URender r response)
  then show ?thesis using assms
    by (auto simp: render_response_def Fprint_def PrintBody_def enqueue_def put_def Let_def
             split: option.splits Option.bind_splits)
qed

lemma apply_event_history:
  assumes "apply_event ev s = Some s'" and "history_inv s"
  shows "history_inv s' \<and> prefix (history s) (history s')"
proof (cases ev)
  case (Submit env)
  then have "SubmitRequest env s = Some s'" using assms(1) by simp
  from SubmitRequest_history [OF this] show ?thesis
    using assms(2) by (auto simp: history_inv_def)
next
  case (Restore idx)
  then have "restoreRequest idx s = Some s'" using assms(1) by simp
  from restoreRequest_history [OF this] show ?thesis
    using assms(2) by (auto simp: history_inv_def)
next
  case (Load env loadLocation)
  then have "LoadRequest env loadLocation s = Some s'" using assms(1) by simp
  from LoadRequest_history [OF this] show ?thesis
    using assms(2) by (simp add: history_inv_def)
next
  case (Callback env)
  show ?thesis
  proof (cases "updates s")
    case Nil
    then show ?thesis using assms Callback by simp
  next
    case (Cons u us)
    then have "run_update env u (s\<lparr>updates := us\<rparr>) = Some s'"
      using assms(1) Callback by simp
    from run_update_history [OF this] show ?thesis
      using assms(2) by (simp add: history_inv_def)
  qed
qed

lemma run_history:
  "run evs s = Some s' \<Longrightarrow> history_inv s \<Longrightarrow> history_inv s' \<and> prefix (history s) (history s')"
proof (induction evs arbitrary: s)
  case Nil
  then show ?case by simp
next
  case (Cons ev evs)
  then obtain s1 where 1: "apply_event ev s = Some s1" and 2: "run evs s1 = Some s'"
    by (auto split: option.splits)
  from apply_event_history [OF 1 Cons.prems(2)] Cons.IH [OF 2] show ?case
    by (auto intro: prefix_order.trans)
qed

text \<open>
  C10. In every state \<open>s\<close> that a run of submits, recalls, loads and callbacks reaches from
  the initial state, the cursor of the history is valid (it is \<open>0\<close> when the history is
  empty and an index of the history otherwise), so that the index \<open>a.history[a.historyIndex]\<close>
  of \<open>PrintBody\<close> is in range; and whatever runs after \<open>s\<close> only appends to the history.
\<close>

theorem history_cursor_valid:
  assumes "run evs (initial vs) = Some s" and "run evs' s = Some s'"
  shows "history_inv s \<and> prefix (history s) (history s')
         \<and> (history s \<noteq> [] \<longrightarrow> history_at s (historyIndex s) \<noteq> None)"
proof -
  have "history_inv (initial vs)"
    by (simp add: history_inv_def initial_def)
  then have i: "history_inv s"
    using run_history [OF assms(1)] by simp
  then have "prefix (history s) (history s')"
    using run_history [OF assms(2)] by simp
  moreover have "history s \<noteq> [] \<longrightarrow> history_at s (historyIndex s) \<noteq> None"
    using i by (simp add: history_inv_def history_at_def)
  ultimately show ?thesis using i by simp
qed


theorem history_cursor_valid_witness:
  "\<exists>s. run [Submit env0] (sample_state ''http://example.com/'' [] ''GET'' [] []) = Some s
      \<and> run [Restore 5] s = Some s
      \<and> history s = [0] \<and> historyIndex s = 0
      \<and> history_inv s \<and> history_at s (historyIndex s) = Some 0"
proof -
  let ?s0 = "sample_state ''http://example.com/'' [] ''GET'' [] []"
  have "\<exists>s. SubmitRequest env0 ?s0 = Some s \<and> history s = [0] \<and> historyIndex s = 0"
    by (subst sample_submit_unfold) (simp add: submit_task_def make_request_def do_request_def
          request_body_def Replace1_def SplitN2_def Request0_def
          abort_def put_def enqueue_def carries_body_def http_MethodPost_def http_MethodPut_def
          http_MethodPatch_def Header_Set_def Header_Get_def response0_def
          DeleteView_def popup_def Let_def sample_defs nl_def)
  then obtain s where s: "SubmitRequest env0 ?s0 = Some s"
    and h: "history s = [0]" "historyIndex s = 0"
    by blast
  have r1: "run [Submit env0] (initial (views ?s0)) = Some s"
    using s by (simp add: sample_state_def initial_def)
  have r2: "run [Restore 5] s = Some s"
    by (simp add: restoreRequest_def h)
  from history_cursor_valid [OF r1 r2] r1 r2 h show ?thesis
    by (auto simp: sample_state_def initial_def history_at_def)
qed


end
